theory Spec2Isabelle
  imports Main "HOL-Library.Char_ord" "HOL-Library.List_Lexorder"
begin

section \<open>Python values shared by the two scripts\<close>

text \<open>
  The exceptions the modelled code can raise, and the interpreter exit of \<^verbatim>\<open>exit(0)\<close>.
  A function that can raise returns \<open>py_error + 'a\<close>, with \<open>Inl\<close> for the exception.
\<close>

datatype py_error =
  IndexError | KeyError | AttributeError | TypeError | ValueError | FileNotFoundError
  | SystemExit int

text \<open>
  A Python \<^verbatim>\<open>dict\<close> keeps its keys in insertion order and \<^verbatim>\<open>items()\<close> walks them in
  that order, so a dictionary is an association list whose keys are distinct.
  \<^verbatim>\<open>d.setdefault(k, v)\<close> adds the key at the end unless it is there already.
\<close>

type_synonym ('k, 'v) dict = "('k \<times> 'v) list"

definition setdefault :: "'k \<Rightarrow> 'v \<Rightarrow> ('k, 'v) dict \<Rightarrow> ('k, 'v) dict" where
  "setdefault k v d = (case map_of d k of None \<Rightarrow> d @ [(k, v)] | Some _ \<Rightarrow> d)"

text \<open>\<^verbatim>\<open>sep.join(xs)\<close>.\<close>

fun py_join :: "string \<Rightarrow> string list \<Rightarrow> string" where
  "py_join sep [] = []"
| "py_join sep [x] = x"
| "py_join sep (x # y # ys) = x @ sep @ py_join sep (y # ys)"



section \<open>src/models/regression.py: leave-one-TF-out cross-validation\<close>

text \<open>
  \<^verbatim>\<open>_leaveOneTFOut(tfIdxs, l)\<close>: for every item \<open>(tf, idxs)\<close> of the dictionary the test
  indices are \<open>idxs\<close> itself and the training indices are
  \<^verbatim>\<open>list(set(range(l)) - set(idxs))\<close>. Python leaves the order of a list made from a
  set open; the model lists the training indices in ascending order.
\<close>

definition range_py :: "int \<Rightarrow> int list" where
  "range_py l = [0..l - 1]"

definition leaveOneTFOut :: "('tf, int list) dict \<Rightarrow> int \<Rightarrow> (int list \<times> int list) list" where
  "leaveOneTFOut tfIdxs l =
     map (\<lambda>(tf, idxs).
            let s = range_py l;
                testIdx = idxs;
                trainIdx = filter (\<lambda>i. i \<notin> set testIdx) s
            in (trainIdx, testIdx))
         tfIdxs"

text \<open>
  The caller, \<^verbatim>\<open>train_models\<close> (lines 117 to 130), builds the dictionary from the list
  of TF pairs: first every TF name gets an empty list, in order of first appearance,
  then every index \<open>i\<close> with \<^verbatim>\<open>tf in tfPairs[i]\<close> is appended to the list of \<open>tf\<close>.
\<close>

definition tf_names :: "'tf list list \<Rightarrow> ('tf, int list) dict" where
  "tf_names tfPairs =
     fold (\<lambda>tfPair d. fold (\<lambda>tf d'. setdefault tf [] d') tfPair d) tfPairs []"

definition tf_indices :: "'tf list list \<Rightarrow> ('tf, int list) dict" where
  "tf_indices tfPairs =
     map (\<lambda>(tf, idxs).
            (tf, idxs @ filter (\<lambda>i. tf \<in> set (tfPairs ! nat i))
                               (range_py (int (length tfPairs)))))
         (tf_names tfPairs)"

definition myCViterator :: "'tf list list \<Rightarrow> (int list \<times> int list) list" where
  "myCViterator tfPairs = leaveOneTFOut (tf_indices tfPairs) (int (length tfPairs))"

text \<open>The indices of the pairs that involve a TF.\<close>

definition pairs_involving :: "'tf list list \<Rightarrow> 'tf \<Rightarrow> int set" where
  "pairs_involving tfPairs tf =
     {i. 0 \<le> i \<and> i < int (length tfPairs) \<and> tf \<in> set (tfPairs ! nat i)}"

section \<open>src/files/get_files.py: reading a Tomtom result table\<close>

text \<open>
  \<^verbatim>\<open>xs[i]\<close> for an index \<open>i \<ge> 0\<close> raises IndexError past the end, and
  \<^verbatim>\<open>s.startswith(p)\<close>.
\<close>

definition item :: "'a list \<Rightarrow> nat \<Rightarrow> py_error + 'a" where
  "item xs i = (if i < length xs then Inr (xs ! i) else Inl IndexError)"

definition startswith :: "string \<Rightarrow> string \<Rightarrow> bool" where
  "startswith s p = (take (length p) s = p)"

text \<open>
  \<^verbatim>\<open>_get_Tomtom_hits(tomtom_dir)\<close> walks the rows of \<^verbatim>\<open>tomtom.tsv\<close> as
  \<^verbatim>\<open>Jglobals.parse_tsv_file\<close> yields them, each a list of fields. The parser belongs to
  the package's \<^verbatim>\<open>__init__\<close> module, so the rows are the argument here. \<^verbatim>\<open>float\<close> is the
  argument \<open>float_py\<close>: it returns the number or raises ValueError. The checks and the
  field reads come in the source's order, so a short row raises where the source does.
\<close>

fun Tomtom_hits_loop ::
  "(string \<Rightarrow> py_error + 'f) \<Rightarrow> string list list \<Rightarrow> (string \<times> 'f) list
    \<Rightarrow> py_error + (string \<times> 'f) list" where
  "Tomtom_hits_loop float_py [] hits = Inr hits"
| "Tomtom_hits_loop float_py (line # rest) hits =
     (case item line 0 of
        Inl e \<Rightarrow> Inl e
      | Inr query \<Rightarrow>
          if startswith query ''#'' then Tomtom_hits_loop float_py rest hits
          else if query = ''Query_ID'' then Tomtom_hits_loop float_py rest hits
          else (case item line 1 of
             Inl e \<Rightarrow> Inl e
           | Inr target \<Rightarrow>
               if take 6 query = take 6 target then Tomtom_hits_loop float_py rest hits
               else (case item line 4 of
                  Inl e \<Rightarrow> Inl e
                | Inr evalue \<Rightarrow>
                    (case float_py evalue of
                       Inl e \<Rightarrow> Inl e
                     | Inr x \<Rightarrow> Tomtom_hits_loop float_py rest (hits @ [(target, x)])))))"

definition get_Tomtom_hits ::
  "(string \<Rightarrow> py_error + 'f) \<Rightarrow> string list list \<Rightarrow> py_error + (string \<times> 'f) list" where
  "get_Tomtom_hits float_py rows = Tomtom_hits_loop float_py rows []"

text \<open>
  The rows that give a hit: neither a comment nor the header, and the query and the
  target differ in their first six characters. A table is well formed when every row
  has a first field and every row that is neither a comment nor the header has its five
  fields and an E-value that \<^verbatim>\<open>float\<close> reads.
\<close>

definition is_hit_row :: "string list \<Rightarrow> bool" where
  "is_hit_row line =
     (2 \<le> length line \<and> \<not> startswith (line ! 0) ''#'' \<and> line ! 0 \<noteq> ''Query_ID''
      \<and> take 6 (line ! 0) \<noteq> take 6 (line ! 1))"

definition well_formed_row :: "(string \<Rightarrow> py_error + 'f) \<Rightarrow> string list \<Rightarrow> bool" where
  "well_formed_row float_py line =
     (line \<noteq> [] \<and> (startswith (line ! 0) ''#'' \<or> line ! 0 = ''Query_ID''
        \<or> (5 \<le> length line \<and> \<not> isl (float_py (line ! 4)))))"

section \<open>src/files/get_files.py: the latest version of every profile\<close>

text \<open>
  The regular expressions of the script are matched by hand-written recognisers. A
  string is a list of code points below 256. \<^verbatim>\<open>\d\<close> is a decimal digit, \<^verbatim>\<open>\S\<close> is any
  character that is not white space (the white space of \<^verbatim>\<open>str.isspace\<close>), \<^verbatim>\<open>.\<close> is any
  character but the newline, and \<^verbatim>\<open>$\<close> is the end of the string or the position before
  a newline that ends the string.
\<close>

definition is_digit :: "char \<Rightarrow> bool" where
  "is_digit c = (c \<in> set ''0123456789'')"


definition newline :: char where
  "newline = CHR 0x0A"

definition at_end :: "string \<Rightarrow> bool" where
  "at_end s = (s = [] \<or> s = [newline])"



fun re_search :: "(string \<Rightarrow> bool) \<Rightarrow> string \<Rightarrow> nat option" where
  "re_search m [] = (if m [] then Some 0 else None)"
| "re_search m (c # cs) = (if m (c # cs) then Some 0 else map_option Suc (re_search m cs))"





section \<open>src/files/get_files.py: grouping the profiles by Tomtom similarity\<close>

text \<open>
  \<^verbatim>\<open>(MA\d{4}.\d).meme$\<close>, the pattern of \<^verbatim>\<open>_group_by_Tomtom\<close>, whose group 1 is the eight
  characters at the match, and \<^verbatim>\<open>(MA\d{4}.\d|M\d{4}_1.02).meme$\<close>, the pattern of
  \<^verbatim>\<open>Tomtom\<close>, whose group 1 is the eight characters of the first alternative or the ten
  of the second.
\<close>

definition meme_to_end :: "string \<Rightarrow> bool" where
  "meme_to_end s = (take 4 s = ''meme'' \<and> at_end (drop 4 s))"

fun tomtom_key_re :: "string \<Rightarrow> bool" where
  "tomtom_key_re (m # a # d1 # d2 # d3 # d4 # x # v # y # rest) =
     (m = CHR ''M'' \<and> a = CHR ''A'' \<and> is_digit d1 \<and> is_digit d2 \<and> is_digit d3 \<and> is_digit d4
      \<and> x \<noteq> newline \<and> is_digit v \<and> y \<noteq> newline \<and> meme_to_end rest)"
| "tomtom_key_re _ = False"

fun cisbp_re :: "string \<Rightarrow> bool" where
  "cisbp_re (m # d1 # d2 # d3 # d4 # c5 # c6 # x # c8 # c9 # y # rest) =
     (m = CHR ''M'' \<and> is_digit d1 \<and> is_digit d2 \<and> is_digit d3 \<and> is_digit d4
      \<and> c5 = CHR ''_'' \<and> c6 = CHR ''1'' \<and> x \<noteq> newline \<and> c8 = CHR ''0'' \<and> c9 = CHR ''2''
      \<and> y \<noteq> newline \<and> meme_to_end rest)"
| "cisbp_re _ = False"

definition Tomtom_re :: "string \<Rightarrow> bool" where
  "Tomtom_re s = (tomtom_key_re s \<or> cisbp_re s)"


definition Tomtom_output :: "string \<Rightarrow> string option" where
  "Tomtom_output p =
     map_option (\<lambda>i. if tomtom_key_re (drop i p) then take 8 (drop i p) else take 10 (drop i p))
       (re_search Tomtom_re p)"


text \<open>
  The files the stage works on. The table of an output directory of Tomtom is kept as
  the rows of its \<^verbatim>\<open>tomtom.tsv\<close>, directories are named relative to the output directory
  (\<^verbatim>\<open>.MA0001.2\<close>), and the MEME database \<^verbatim>\<open>jaspar.meme\<close> is kept as the list of the
  profile files concatenated into it (\<open>None\<close> when the file does not exist).
\<close>

type_synonym tomtom_table = "string list list"



text \<open>
  \<^verbatim>\<open>Tomtom(meme_file, database, out_dir)\<close>: skipped when the output directory exists;
  otherwise the tool runs. The tool is the argument \<open>tomtom_tool\<close>: from the query file
  and the database it gives the table it writes, or nothing when it fails
  (\<^verbatim>\<open>subprocess.run\<close> does not raise then).
\<close>

definition Tomtom ::
  "(string \<Rightarrow> string list option \<Rightarrow> tomtom_table option) \<Rightarrow> string \<Rightarrow> string list option
    \<Rightarrow> (string \<rightharpoonup> tomtom_table) \<Rightarrow> py_error + (string \<rightharpoonup> tomtom_table)" where
  "Tomtom tomtom_tool meme_file db dirs =
     (case Tomtom_output meme_file of
        None \<Rightarrow> Inl AttributeError
      | Some g \<Rightarrow>
          let output_dir = ''.'' @ g in
          if dirs output_dir \<noteq> None then Inr dirs
          else (case tomtom_tool meme_file db of
                  None \<Rightarrow> Inr dirs
                | Some table \<Rightarrow> Inr (dirs(output_dir \<mapsto> table))))"

text \<open>
  The worker pool maps \<^verbatim>\<open>Tomtom\<close> over the profiles; the model runs the calls in the
  order of the list.
\<close>

fun Tomtom_all ::
  "(string \<Rightarrow> string list option \<Rightarrow> tomtom_table option) \<Rightarrow> string list option \<Rightarrow> string list
    \<Rightarrow> (string \<rightharpoonup> tomtom_table) \<Rightarrow> py_error + (string \<rightharpoonup> tomtom_table)" where
  "Tomtom_all tomtom_tool db [] dirs = Inr dirs"
| "Tomtom_all tomtom_tool db (jaspar_profile # rest) dirs =
     (case Tomtom tomtom_tool jaspar_profile db dirs of
        Inl e \<Rightarrow> Inl e
      | Inr dirs' \<Rightarrow> Tomtom_all tomtom_tool db rest dirs')"





section \<open>src/files/get_files.py: the profiles of a taxon\<close>

text \<open>
  A page of the JASPAR REST API as \<^verbatim>\<open>_get_profile_info\<close> reads it: the \<^verbatim>\<open>next\<close> link
  (\<open>None\<close> for \<^verbatim>\<open>null\<close>) and the \<^verbatim>\<open>results\<close>, of which the fields \<^verbatim>\<open>collection\<close>,
  \<^verbatim>\<open>matrix_id\<close> and \<^verbatim>\<open>name\<close> are read. The client is the argument \<open>client_get\<close>: the
  decoded page of a URL, or the exception of the request.
\<close>

record profile =
  profile_collection :: string
  profile_matrix_id :: string
  profile_name :: string

record page =
  page_next :: "string option"
  page_results :: "profile list"

text \<open>The loop over the results of one page, which the source has twice.\<close>

definition add_core :: "profile list \<Rightarrow> (string, string) dict \<Rightarrow> (string, string) dict" where
  "add_core results profiles =
     fold (\<lambda>profile d.
             if profile_collection profile = ''CORE''
             then setdefault (profile_matrix_id profile) (profile_name profile) d
             else d)
          results profiles"

text \<open>
  \<^verbatim>\<open>while json_obj["next"] is not None\<close>: nothing bounds the number of pages, so the loop
  is a partial function and not returning is \<open>None\<close>.
\<close>

partial_function (option) pages_loop ::
  "(string \<Rightarrow> py_error + page) \<Rightarrow> page \<Rightarrow> (string, string) dict
    \<Rightarrow> (py_error + page \<times> (string, string) dict) option" where
  "pages_loop client_get json_obj profiles =
     (case page_next json_obj of
        None \<Rightarrow> Some (Inr (json_obj, profiles))
      | Some url \<Rightarrow>
          (case client_get url of
             Inl e \<Rightarrow> Some (Inl e)
           | Inr next_obj \<Rightarrow>
               pages_loop client_get next_obj (add_core (page_results json_obj) profiles)))"

text \<open>
  \<^verbatim>\<open>_get_profile_info(taxon, out_dir)\<close> under its guard: the dictionary written to the
  profiles file of the taxon. \<^verbatim>\<open>jaspar_url\<close> ends with a slash, so \<^verbatim>\<open>os.path.join\<close> adds
  none after it.
\<close>

definition get_profile_info ::
  "(string \<Rightarrow> py_error + page) \<Rightarrow> string \<Rightarrow> string
    \<Rightarrow> (py_error + (string, string) dict) option" where
  "get_profile_info client_get jaspar_url taxon =
     (case client_get (jaspar_url @ ''api/v1/taxon/'' @ taxon) of
        Inl e \<Rightarrow> Some (Inl e)
      | Inr json_obj \<Rightarrow>
          (case pages_loop client_get json_obj [] of
             None \<Rightarrow> None
           | Some (Inl e) \<Rightarrow> Some (Inl e)
           | Some (Inr (last_obj, profiles)) \<Rightarrow>
               Some (Inr (add_core (page_results last_obj) profiles))))"

text \<open>
  A sequence of pages linked by \<^verbatim>\<open>next\<close> and ended by a page without a link, and the
  entries of the CORE collection on a list of pages, in order.
\<close>

fun linked :: "(string \<Rightarrow> py_error + page) \<Rightarrow> page \<Rightarrow> page list \<Rightarrow> bool" where
  "linked client_get p [] = (page_next p = None)"
| "linked client_get p (q # qs) =
     (case page_next p of
        None \<Rightarrow> False
      | Some url \<Rightarrow> client_get url = Inr q \<and> linked client_get q qs)"

definition core_of :: "profile list \<Rightarrow> (string \<times> string) list" where
  "core_of results =
     map (\<lambda>profile. (profile_matrix_id profile, profile_name profile))
       (filter (\<lambda>profile. profile_collection profile = ''CORE'') results)"

definition core_entries :: "page list \<Rightarrow> (string \<times> string) list" where
  "core_entries pages = core_of (concat (map page_results pages))"

text \<open>An API with two pages for the taxon \<^verbatim>\<open>fungi\<close>.\<close>

definition example_api :: "string \<Rightarrow> py_error + page" where
  "example_api url =
     (if url = ''http://jaspar.genereg.net/api/v1/taxon/fungi'' then
        Inr \<lparr>page_next = Some ''page2'',
             page_results = [\<lparr>profile_collection = ''CORE'', profile_matrix_id = ''MA0265.1'',
                               profile_name = ''ABF1''\<rparr>,
                             \<lparr>profile_collection = ''PBM'', profile_matrix_id = ''PB0001.1'',
                               profile_name = ''Arid3a''\<rparr>]\<rparr>
      else if url = ''page2'' then
        Inr \<lparr>page_next = None,
             page_results = [\<lparr>profile_collection = ''CORE'', profile_matrix_id = ''MA0266.1'',
                               profile_name = ''ABF2''\<rparr>]\<rparr>
      else Inl FileNotFoundError)"

section \<open>src/files/get_files.py: accessions and sequences from UniProt\<close>

text \<open>
  The detailed record of a profile as \<^verbatim>\<open>_download_UniProt_sequences\<close> reads it, and the
  two hard-coded tables of the function.
\<close>

record matrix =
  matrix_matrix_id :: string
  matrix_uniprot_ids :: "string list"

definition faulty_profiles :: "(string, string list) dict" where
  "faulty_profiles =
     [(''MA0024.1'', [''Q01094'']),
      (''MA0046.1'', [''P20823'']),
      (''MA0052.1'', [''Q02078'']),
      (''MA0058.1'', [''P61244'']),
      (''MA0098.1'', [''P14921'']),
      (''MA0110.1'', [''P46667'']),
      (''MA0138.1'', [''Q13127'']),
      (''MA0328.1'', [''P0CY08'']),
      (''MA0529.1'', [''Q94513'']),
      (''MA0529.2'', [''Q94513''])]"

definition B9GPL8_lines :: "string list" where
  "B9GPL8_lines =
     [''MEEVGAQVAAPIFIHEALSSRYCDMTSMAKKHDLSYQSPNSQLQQHQFLQASREKNWNSK'',
      ''AWDWDSVDDDGLGLNLGGSLTSVEEPVSRPNKRVRSGSPGNGSYPMCQVDNCKEDLSKAK'',
      ''DYHRRHKVCQVHSKATKALVGKQMQRFCQQCSRFHPLTEFDEGKRSCRRRLAGHNRRRRK'',
      ''TQPEDVTSRLLLPGNPDMNNNGNLDIVNLLTALARSQGKTYLPMIDFYVPPFVLTNCPTV'',
      ''PDKDQLIQILNKINSLPLPMDLAAKLSNIASLNVKNPNQPYLGHQNRLNGTASSPSTNDL'',
      ''LAVLSTTLAASAPDALAILSQRSSQSSDNDKSKLPGPNQVTVPHLQKRSNVEFPAVGVER'',
      ''ISRCYESPAEDSDYQIQESRPNLPLQLFSSSPENESRQKPASSGKYFSSDSSNPIEERSP'',
      ''SSSPPVVQKLFPLQSTAETMKSEKMSVSREVNANVEGDRSHGCVLPLELFRGPNREPDHS'',
      ''SFQSFPYRGGYTSSSGSDHSPSSQNSDPQDRTGRIIFKLFDKDPSHFPGTLRTKIYNWLS'',
      ''NSPSEMESYIRPGCVVLSVYLSMPSASWEQLERNLLQLVDSLVQDSDSDLWRSGRFLLNT'',
      ''GRQLASHKDGKVRLCKSWRTWSSPELILVSPVAVIGGQETSLQLKGRNLTGPGTKIHCTY'',
      ''MGGYTSKEVTDSSSPGSMYDEINVGGFKIHGPSPSILGRCFIEVENGFKGNSFPVIIADA'',
      ''SICKELRLLESEFDENAVVSNIVSEEQTRDLGRPRSREEVMHFLNELGWLFQRKSMPSMH'',
      ''EAPDYSLNRFKFLLIFSVERDYCVLVKTILDMLVERNTCRDELSKEHLEMLYEIQLLNRS'',
      ''VKRRCRKMADLLIHYSIIGGDNSSRTYIFPPNVGGPGGITPLHLAACASGSDGLVDALTN'',
      ''DPHEIGLSCWNSVLDANGLSPYAYAVMTKNHSYNLLVARKLADKRNGQISVAIGNEIEQA'',
      ''ALEQEHVTISQFQRERKSCAKCASVAAKMHGRFLGSQGLLQRPYVHSMLAIAAVCVCVCL'',
      ''FFRGAPDIGLVAPFKWENLNYGTI'']"

definition faulty_sequences :: "(string, string list) dict" where
  "faulty_sequences = [(''B9GPL8'', B9GPL8_lines)]"

text \<open>\<^verbatim>\<open>uniacc.strip(" ")\<close> removes the spaces at both ends.\<close>

definition strip_spaces :: "string \<Rightarrow> string" where
  "strip_spaces s =
     rev (dropWhile (\<lambda>c. c = CHR '' '') (rev (dropWhile (\<lambda>c. c = CHR '' '') s)))"

text \<open>The fix of the faulty profiles: the accessions the loop then walks.\<close>

definition fixed_uniprot_ids :: "matrix \<Rightarrow> string list" where
  "fixed_uniprot_ids json_obj =
     (case map_of faulty_profiles (matrix_matrix_id json_obj) of
        Some ids \<Rightarrow> ids
      | None \<Rightarrow> matrix_uniprot_ids json_obj)"

text \<open>
  One pass of the inner loop: the accession gets an entry \<^verbatim>\<open>[[], None]\<close> unless it has
  one, and the profile is appended to its list unless it is there.
\<close>

type_synonym uniaccs = "(string, string list \<times> string option) dict"

definition add_uniacc :: "string \<Rightarrow> string \<Rightarrow> uniaccs \<Rightarrow> uniaccs" where
  "add_uniacc profile uniacc0 d =
     (let uniacc = strip_spaces uniacc0 in
      map (\<lambda>(k, v). (k, if k = uniacc \<and> profile \<notin> set (fst v)
                           then (fst v @ [profile], snd v) else v))
          (setdefault uniacc ([], None) d))"

text \<open>
  The first half of the function, which makes the pickle of the accessions: one request
  per profile, in the sorted order of the matrix IDs. The client is the argument
  \<open>client_get\<close>.
\<close>

fun uniaccs_loop ::
  "(string \<Rightarrow> py_error + matrix) \<Rightarrow> string \<Rightarrow> string list \<Rightarrow> uniaccs \<Rightarrow> py_error + uniaccs" where
  "uniaccs_loop client_get jaspar_url [] d = Inr d"
| "uniaccs_loop client_get jaspar_url (profile # rest) d =
     (case client_get (jaspar_url @ ''api/v1/matrix/'' @ profile) of
        Inl e \<Rightarrow> Inl e
      | Inr json_obj \<Rightarrow>
          uniaccs_loop client_get jaspar_url rest
            (fold (add_uniacc profile) (fixed_uniprot_ids json_obj) d))"

definition collect_uniaccs ::
  "(string \<Rightarrow> py_error + matrix) \<Rightarrow> string \<Rightarrow> (string, string) dict \<Rightarrow> py_error + uniaccs" where
  "collect_uniaccs client_get jaspar_url profiles =
     uniaccs_loop client_get jaspar_url (sort (map fst profiles)) []"

text \<open>
  The second half, which fills in the sequences. The sequence database is the argument
  \<open>queryUniprot\<close>: the text under the key \<^verbatim>\<open>sequence   0\<close> of its answer, or the exception.
  The accessions it is asked for are returned as a list beside the dictionary.
  \<^verbatim>\<open>"".join(text.split("\n"))\<close> drops the newlines of the text.
\<close>

fun sequences_loop ::
  "(string \<Rightarrow> py_error + string) \<Rightarrow> uniaccs \<Rightarrow> uniaccs \<Rightarrow> string list
    \<Rightarrow> py_error + uniaccs \<times> string list" where
  "sequences_loop queryUniprot [] filled queries = Inr (filled, queries)"
| "sequences_loop queryUniprot ((uniacc, v) # rest) filled queries =
     (case map_of faulty_sequences uniacc of
        Some lines \<Rightarrow>
          sequences_loop queryUniprot rest (filled @ [(uniacc, (fst v, Some (concat lines)))])
            queries
      | None \<Rightarrow>
          (case queryUniprot uniacc of
             Inl e \<Rightarrow> Inl e
           | Inr text \<Rightarrow>
               sequences_loop queryUniprot rest
                 (filled @ [(uniacc, (fst v, Some (filter (\<lambda>c. c \<noteq> newline) text)))])
                 (queries @ [uniacc])))"

definition fetch_sequences ::
  "(string \<Rightarrow> py_error + string) \<Rightarrow> uniaccs \<Rightarrow> py_error + uniaccs \<times> string list" where
  "fetch_sequences queryUniprot d = sequences_loop queryUniprot d [] []"

text \<open>The profiles recorded for an accession.\<close>

definition profiles_of :: "uniaccs \<Rightarrow> string \<Rightarrow> string list" where
  "profiles_of d uniacc = (case map_of d uniacc of None \<Rightarrow> [] | Some v \<Rightarrow> fst v)"

text \<open>
  A client and a sequence database for three profiles: the first is in the table of
  faulty profiles, the second has an accession with spaces around it, and the
  accession of the third is in the table of faulty sequences.
\<close>

definition example_matrix :: "string \<Rightarrow> py_error + matrix" where
  "example_matrix url =
     (if url = ''http://jaspar.genereg.net/api/v1/matrix/MA0024.1'' then
        Inr \<lparr>matrix_matrix_id = ''MA0024.1'', matrix_uniprot_ids = [''P12345'', ''P67890'']\<rparr>
      else if url = ''http://jaspar.genereg.net/api/v1/matrix/MA0001.1'' then
        Inr \<lparr>matrix_matrix_id = ''MA0001.1'', matrix_uniprot_ids = ['' P29383 '']\<rparr>
      else if url = ''http://jaspar.genereg.net/api/v1/matrix/MA0999.1'' then
        Inr \<lparr>matrix_matrix_id = ''MA0999.1'', matrix_uniprot_ids = [''B9GPL8'']\<rparr>
      else Inl FileNotFoundError)"

definition example_uniprot :: "string \<Rightarrow> py_error + string" where
  "example_uniprot uniacc =
     (if uniacc = ''P29383'' then Inr [CHR ''M'', CHR ''G'', newline, CHR ''R'', CHR ''G'', newline]
      else if uniacc = ''Q01094'' then Inr ''MALA''
      else Inl KeyError)"

section \<open>src/files/get_files.py: the Pfam domains of every sequence\<close>

text \<open>
  \<^verbatim>\<open>seq[start:end]\<close> for integers of either sign: a negative index counts from the end,
  and both are clipped to the sequence.
\<close>

definition py_slice :: "'a list \<Rightarrow> int \<Rightarrow> int \<Rightarrow> 'a list" where
  "py_slice xs i j =
     (let n = int (length xs);
          lo = (if i < 0 then max (i + n) 0 else min i n);
          hi = (if j < 0 then max (j + n) 0 else min j n)
      in take (nat (hi - lo)) (drop (nat lo) xs))"

text \<open>
  \<^verbatim>\<open>hmmScan\<close>, \<^verbatim>\<open>hmmAlign\<close> and \<^verbatim>\<open>_makeSeqFile\<close> come from the module \<^verbatim>\<open>infer_profile\<close>; they
  are arguments here. A sequence record is its identifier and its sequence (name and
  description repeat the identifier). \<open>makeSeqFile\<close> gives the content written to the
  sequence file, and the two tools read the content the file has when they are called:
  \<open>hmmScan\<close> gives the hits (Pfam accession, start, end, E-value) from the sequence
  file, the database and the flag \<^verbatim>\<open>non_overlapping_domains\<close>; \<open>hmmAlign\<close> gives the
  alignment from the sequence file and the HMM file. The sequence file is threaded
  through the loops as \<open>seq_file\<close>, \<open>None\<close> while it does not exist.
\<close>

type_synonym seq_record = "string \<times> string"

type_synonym 'e pfam_hit = "string \<times> int \<times> int \<times> 'e"

type_synonym 'e pfams = "(string, (string \<times> string \<times> int \<times> int \<times> 'e) list) dict"

text \<open>\<^verbatim>\<open>pfams[uniacc].append(x)\<close>.\<close>

definition dict_append :: "'k \<Rightarrow> 'v \<Rightarrow> ('k, 'v list) dict \<Rightarrow> ('k, 'v list) dict" where
  "dict_append k x d = map (\<lambda>(k', l). (k', if k' = k then l @ [x] else l)) d"

text \<open>The loop over the hits of one sequence.\<close>

fun DBD_loop ::
  "(seq_record \<Rightarrow> 'c) \<Rightarrow> ('c option \<Rightarrow> string \<Rightarrow> string)
    \<Rightarrow> string \<Rightarrow> string \<Rightarrow> 'e pfam_hit list \<Rightarrow> 'e pfams \<Rightarrow> 'c option
    \<Rightarrow> 'e pfams \<times> 'c option" where
  "DBD_loop makeSeqFile hmmAlign uniacc seq [] pfams seq_file = (pfams, seq_file)"
| "DBD_loop makeSeqFile hmmAlign uniacc seq ((pfam_ac, start, end, evalue) # hits) pfams
     seq_file =
     (let hmm_file = ''pfam-DBDs/'' @ pfam_ac @ ''.hmm'';
          sub_seq = py_slice seq start end;
          seq_file' = Some (makeSeqFile (uniacc, sub_seq));
          alignment = hmmAlign seq_file' hmm_file
      in DBD_loop makeSeqFile hmmAlign uniacc seq hits
           (dict_append uniacc (pfam_ac, alignment, start + 1, end, evalue) pfams) seq_file')"

text \<open>
  The loop over the accessions of the UniProt file of the taxon, whose values are the
  profiles and the sequence.
\<close>

fun uniacc_loop ::
  "(seq_record \<Rightarrow> 'c) \<Rightarrow> ('c option \<Rightarrow> string \<Rightarrow> bool \<Rightarrow> 'e pfam_hit list)
    \<Rightarrow> ('c option \<Rightarrow> string \<Rightarrow> string)
    \<Rightarrow> (string, string list \<times> string) dict \<Rightarrow> 'e pfams \<Rightarrow> 'c option
    \<Rightarrow> 'e pfams \<times> 'c option" where
  "uniacc_loop makeSeqFile hmmScan hmmAlign [] pfams seq_file = (pfams, seq_file)"
| "uniacc_loop makeSeqFile hmmScan hmmAlign ((uniacc, v) # rest) pfams seq_file =
     (let pfams1 = setdefault uniacc [] pfams;
          seq = snd v;
          seq_file1 = Some (makeSeqFile (uniacc, seq));
          hits = hmmScan seq_file1 ''pfam-DBDs/all_DBDs.hmm'' True;
          (pfams2, seq_file2) = DBD_loop makeSeqFile hmmAlign uniacc seq hits pfams1 seq_file1
      in uniacc_loop makeSeqFile hmmScan hmmAlign rest pfams2 seq_file2)"

text \<open>
  \<^verbatim>\<open>_get_Pfam_alignments\<close> under its guard: the dictionary written to the Pfam file of the
  taxon. The sequence file is removed at the end.
\<close>

definition get_Pfam_alignments ::
  "(seq_record \<Rightarrow> 'c) \<Rightarrow> ('c option \<Rightarrow> string \<Rightarrow> bool \<Rightarrow> 'e pfam_hit list)
    \<Rightarrow> ('c option \<Rightarrow> string \<Rightarrow> string)
    \<Rightarrow> (string, string list \<times> string) dict \<Rightarrow> 'c option \<Rightarrow> 'e pfams" where
  "get_Pfam_alignments makeSeqFile hmmScan hmmAlign uniaccs seq_file =
     fst (uniacc_loop makeSeqFile hmmScan hmmAlign uniaccs [] seq_file)"

text \<open>What the claim says is recorded for one hit of the sequence of an accession.\<close>

definition realigned ::
  "(seq_record \<Rightarrow> 'c) \<Rightarrow> ('c option \<Rightarrow> string \<Rightarrow> string) \<Rightarrow> string \<Rightarrow> string
    \<Rightarrow> 'e pfam_hit \<Rightarrow> string \<times> string \<times> int \<times> int \<times> 'e" where
  "realigned makeSeqFile hmmAlign uniacc seq hit =
     (case hit of (pfam_ac, start, end, evalue) \<Rightarrow>
        (pfam_ac,
         hmmAlign (Some (makeSeqFile (uniacc, py_slice seq start end)))
           (''pfam-DBDs/'' @ pfam_ac @ ''.hmm''),
         start + 1, end, evalue))"

text \<open>
  Tools for an example: the sequence file holds the record itself, the scan finds one
  domain in the sequence of \<^verbatim>\<open>P1\<close>, and the alignment is the sequence it is given.
\<close>

definition example_hmmScan ::
  "seq_record option \<Rightarrow> string \<Rightarrow> bool \<Rightarrow> string pfam_hit list" where
  "example_hmmScan seq_file hmm_db non_overlapping_domains =
     (if seq_file = Some (''P1'', ''MKRGRVQLKRIENK'') \<and> non_overlapping_domains
      then [(''PF00319'', 2, 9, ''1.2e-30'')] else [])"

definition example_hmmAlign :: "seq_record option \<Rightarrow> string \<Rightarrow> string" where
  "example_hmmAlign seq_file hmm_file = (case seq_file of None \<Rightarrow> [] | Some (i, s) \<Rightarrow> s)"

section \<open>src/files/get_files.py: grouping the proteins by DBD composition\<close>

text \<open>
  A member of a group is the list \<^verbatim>\<open>[profiles, alignments, uniacc]\<close>. Of a recorded
  domain only the first two fields are read, the Pfam accession and the alignment; the
  rest of the tuple is \<open>'r\<close>. \<^verbatim>\<open>uniaccs[uniacc]\<close> raises KeyError for an accession that
  the UniProt file does not have.
\<close>

type_synonym member = "string list \<times> string list \<times> string"

type_synonym groups = "(string, member list) dict"

fun DBD_members_loop ::
  "(string, string list \<times> 'b) dict \<Rightarrow> (string \<times> (string \<times> string \<times> 'r) list) list \<Rightarrow> groups
    \<Rightarrow> py_error + groups" where
  "DBD_members_loop uniaccs [] groups = Inr groups"
| "DBD_members_loop uniaccs ((uniacc, values) # rest) groups =
     (let domains = py_join ''+'' (map fst values);
          alignments = map (\<lambda>v. fst (snd v)) values
      in if domains = '''' then DBD_members_loop uniaccs rest groups
         else (case map_of uniaccs uniacc of
                 None \<Rightarrow> Inl KeyError
               | Some u \<Rightarrow>
                   DBD_members_loop uniaccs rest
                     (dict_append domains (fst u, alignments, uniacc)
                        (setdefault domains [] groups))))"

text \<open>
  The loop over the taxa. \<^verbatim>\<open>Jglobals.taxons\<close> belongs to the package's \<^verbatim>\<open>__init__\<close>
  module; the argument is the list of what the Pfam file and the UniProt file of each
  taxon hold, in the order of the taxa.
\<close>

fun DBD_taxons_loop ::
  "((string, (string \<times> string \<times> 'r) list) dict \<times> (string, string list \<times> 'b) dict) list
    \<Rightarrow> groups \<Rightarrow> py_error + groups" where
  "DBD_taxons_loop [] groups = Inr groups"
| "DBD_taxons_loop ((pfams, uniaccs) # rest) groups =
     (case DBD_members_loop uniaccs pfams groups of
        Inl e \<Rightarrow> Inl e
      | Inr groups' \<Rightarrow> DBD_taxons_loop rest groups')"

text \<open>
  \<^verbatim>\<open>_group_by_DBD_composition\<close> under its guard: the dictionary written to
  \<^verbatim>\<open>groups.DBDs.json.gz\<close>.
\<close>

definition group_by_DBD_composition ::
  "((string, (string \<times> string \<times> 'r) list) dict \<times> (string, string list \<times> 'b) dict) list
    \<Rightarrow> py_error + groups" where
  "group_by_DBD_composition files = DBD_taxons_loop files []"

text \<open>
  The members of a group, and what the loop places: for every accession of every
  taxon whose Pfam accessions joined by \<^verbatim>\<open>+\<close> are not the empty string (the test of the
  code), the key and the member.
\<close>

definition group_members :: "groups \<Rightarrow> string \<Rightarrow> member list" where
  "group_members groups k = (case map_of groups k of None \<Rightarrow> [] | Some ms \<Rightarrow> ms)"

definition placed_taxon ::
  "(string, (string \<times> string \<times> 'r) list) dict \<Rightarrow> (string, string list \<times> 'b) dict
    \<Rightarrow> (string \<times> member) list" where
  "placed_taxon pfams uniaccs =
     concat (map (\<lambda>(uniacc, values).
                    if py_join ''+'' (map fst values) = '''' then []
                    else (case map_of uniaccs uniacc of
                            None \<Rightarrow> []
                          | Some u \<Rightarrow>
                              [(py_join ''+'' (map fst values),
                                (fst u, map (\<lambda>v. fst (snd v)) values, uniacc))]))
                 pfams)"

definition placed ::
  "((string, (string \<times> string \<times> 'r) list) dict \<times> (string, string list \<times> 'b) dict) list
    \<Rightarrow> (string \<times> member) list" where
  "placed files = concat (map (\<lambda>(pfams, uniaccs). placed_taxon pfams uniaccs) files)"

section \<open>src/models/regression.py: training the models\<close>

text \<open>
  \<^verbatim>\<open>itemgetter(*idxs)(xs)\<close>: without an index the call of \<^verbatim>\<open>itemgetter\<close> raises TypeError,
  with one index the result is the item itself, with more it is the tuple of the items.
  An index counts from the end when it is negative.
\<close>

datatype 'a picked = Single 'a | Several "'a list"

definition py_index :: "'a list \<Rightarrow> int \<Rightarrow> py_error + 'a" where
  "py_index xs i =
     (let n = int (length xs); j = (if i < 0 then i + n else i)
      in if 0 \<le> j \<and> j < n then Inr (xs ! nat j) else Inl IndexError)"

fun py_indices :: "'a list \<Rightarrow> int list \<Rightarrow> py_error + 'a list" where
  "py_indices xs [] = Inr []"
| "py_indices xs (i # idxs) =
     (case py_index xs i of
        Inl e \<Rightarrow> Inl e
      | Inr x \<Rightarrow> (case py_indices xs idxs of Inl e \<Rightarrow> Inl e | Inr ys \<Rightarrow> Inr (x # ys)))"

definition itemgetter :: "int list \<Rightarrow> 'a list \<Rightarrow> py_error + 'a picked" where
  "itemgetter idxs xs =
     (case idxs of
        [] \<Rightarrow> Inl TypeError
      | [i] \<Rightarrow> (case py_index xs i of Inl e \<Rightarrow> Inl e | Inr x \<Rightarrow> Inr (Single x))
      | _ \<Rightarrow> (case py_indices xs idxs of Inl e \<Rightarrow> Inl e | Inr ys \<Rightarrow> Inr (Several ys)))"

text \<open>
  The value of a DBD composition in the pickle of pairwise similarities, as far as
  \<^verbatim>\<open>train_models\<close> reads it: \<^verbatim>\<open>values[0]\<close> (the rows of every similarity representation),
  \<^verbatim>\<open>values[2]\<close> and \<^verbatim>\<open>values[3]\<close>. Rows, labels, fitted models and predictions are numeric
  arrays and objects of \<^verbatim>\<open>glmnet\<close>; they are the type parameters \<open>'x\<close>, \<open>'y\<close>, \<open>'m\<close> and
  \<open>'p\<close>, and \<^verbatim>\<open>ElasticNet().fit\<close> and \<^verbatim>\<open>predict\<close> are the arguments \<open>fit\<close> and \<open>predict\<close>,
  which return their result or raise. \<open>zeros\<close> and \<open>ones\<close> are the rows of 57 zeros and
  57 ones. The model is the run with \<^verbatim>\<open>verbose=False\<close>; what is printed is left out.
\<close>

record ('x, 'y, 'tf) pairwise_values =
  values_Xs :: "(string, 'x list) dict"
  values_Ys :: "'y list"
  values_tfPairs :: "'tf list list"

text \<open>
  One pass of the loop over the cross-validation splits (lines 185 to 214). In the
  source the statement under \<^verbatim>\<open>if regression == "linear":\<close> (lines 199 and 200) is not
  indented, so Python rejects the module as it stands; the model reads the prediction
  as the body of that \<^verbatim>\<open>if\<close>. After the two printed predictions comes \<^verbatim>\<open>exit(0)\<close>
  (line 211): the pass never reaches \<^verbatim>\<open>predictions.append((p, y_test))\<close>.
\<close>

definition cv_pass ::
  "('x picked \<Rightarrow> 'y picked \<Rightarrow> py_error + 'm) \<Rightarrow> ('m \<Rightarrow> 'x picked \<Rightarrow> py_error + 'p)
    \<Rightarrow> 'x \<Rightarrow> 'x \<Rightarrow> 'x list \<Rightarrow> 'y list \<Rightarrow> int list \<times> int list
    \<Rightarrow> py_error + 'p \<times> 'y picked" where
  "cv_pass fit predict zeros ones myXs Ys cv =
     (case itemgetter (fst cv) myXs of Inl e \<Rightarrow> Inl e | Inr x_train \<Rightarrow>
      case itemgetter (fst cv) Ys of Inl e \<Rightarrow> Inl e | Inr y_train \<Rightarrow>
      case itemgetter (snd cv) myXs of Inl e \<Rightarrow> Inl e | Inr x_test \<Rightarrow>
      case itemgetter (snd cv) Ys of Inl e \<Rightarrow> Inl e | Inr y_test \<Rightarrow>
      case fit x_train y_train of Inl e \<Rightarrow> Inl e | Inr m_cv \<Rightarrow>
      case predict m_cv x_test of Inl e \<Rightarrow> Inl e | Inr p \<Rightarrow>
      case predict m_cv (Several [zeros]) of Inl e \<Rightarrow> Inl e | Inr p0 \<Rightarrow>
      case predict m_cv (Several [ones]) of Inl e \<Rightarrow> Inl e | Inr p1 \<Rightarrow>
      Inl (SystemExit 0))"

fun cv_loop ::
  "('x picked \<Rightarrow> 'y picked \<Rightarrow> py_error + 'm) \<Rightarrow> ('m \<Rightarrow> 'x picked \<Rightarrow> py_error + 'p)
    \<Rightarrow> 'x \<Rightarrow> 'x \<Rightarrow> 'x list \<Rightarrow> 'y list \<Rightarrow> (int list \<times> int list) list
    \<Rightarrow> ('p \<times> 'y picked) list \<Rightarrow> py_error + ('p \<times> 'y picked) list" where
  "cv_loop fit predict zeros ones myXs Ys [] predictions = Inr predictions"
| "cv_loop fit predict zeros ones myXs Ys (cv # rest) predictions =
     (case cv_pass fit predict zeros ones myXs Ys cv of
        Inl e \<Rightarrow> Inl e
      | Inr r \<Rightarrow> cv_loop fit predict zeros ones myXs Ys rest (predictions @ [r]))"

text \<open>
  The loops over the similarity representations and over the regression approaches.
  The body for one representation ends with \<^verbatim>\<open>exit(0)\<close> (line 216) once the loop over
  the splits is through; the statements after it, which would add the entry of the
  pair (regression, similarity) to the models, are never reached. An entry would be of
  type \<open>'d\<close>.
\<close>

fun similarity_loop ::
  "('x picked \<Rightarrow> 'y picked \<Rightarrow> py_error + 'm) \<Rightarrow> ('m \<Rightarrow> 'x picked \<Rightarrow> py_error + 'p)
    \<Rightarrow> 'x \<Rightarrow> 'x \<Rightarrow> (string, 'x list) dict \<Rightarrow> 'y list \<Rightarrow> (int list \<times> int list) list
    \<Rightarrow> string \<Rightarrow> string list \<Rightarrow> (string \<times> string, 'd) dict
    \<Rightarrow> py_error + (string \<times> string, 'd) dict" where
  "similarity_loop fit predict zeros ones Xs Ys cvs regression [] entries = Inr entries"
| "similarity_loop fit predict zeros ones Xs Ys cvs regression (similarity # rest) entries =
     (case map_of Xs similarity of
        None \<Rightarrow> Inl KeyError
      | Some myXs \<Rightarrow>
          (case cv_loop fit predict zeros ones myXs Ys cvs [] of
             Inl e \<Rightarrow> Inl e
           | Inr predictions \<Rightarrow> Inl (SystemExit 0)))"

fun regression_loop ::
  "('x picked \<Rightarrow> 'y picked \<Rightarrow> py_error + 'm) \<Rightarrow> ('m \<Rightarrow> 'x picked \<Rightarrow> py_error + 'p)
    \<Rightarrow> 'x \<Rightarrow> 'x \<Rightarrow> (string, 'x list) dict \<Rightarrow> 'y list \<Rightarrow> (int list \<times> int list) list
    \<Rightarrow> string list \<Rightarrow> (string \<times> string, 'd) dict
    \<Rightarrow> py_error + (string \<times> string, 'd) dict" where
  "regression_loop fit predict zeros ones Xs Ys cvs [] entries = Inr entries"
| "regression_loop fit predict zeros ones Xs Ys cvs (regression # rest) entries =
     (case similarity_loop fit predict zeros ones Xs Ys cvs regression
             [''identity'', ''blosum62''] entries of
        Inl e \<Rightarrow> Inl e
      | Inr entries' \<Rightarrow> regression_loop fit predict zeros ones Xs Ys cvs rest entries')"

text \<open>
  The arrays of the two similarity representations are taken first (line 136), which
  raises KeyError when one is missing.
\<close>

definition regress_domains ::
  "('x picked \<Rightarrow> 'y picked \<Rightarrow> py_error + 'm) \<Rightarrow> ('m \<Rightarrow> 'x picked \<Rightarrow> py_error + 'p)
    \<Rightarrow> 'x \<Rightarrow> 'x \<Rightarrow> ('x, 'y, 'tf) pairwise_values
    \<Rightarrow> py_error + (string \<times> string, 'd) dict" where
  "regress_domains fit predict zeros ones vals =
     (case map_of (values_Xs vals) ''identity'' of
        None \<Rightarrow> Inl KeyError
      | Some Xi \<Rightarrow>
          (case map_of (values_Xs vals) ''blosum62'' of
             None \<Rightarrow> Inl KeyError
           | Some Xb \<Rightarrow>
               regression_loop fit predict zeros ones
                 [(''identity'', Xi), (''blosum62'', Xb)] (values_Ys vals)
                 (myCViterator (values_tfPairs vals)) [''linear'', ''logistic''] []))"

text \<open>
  The loop over the DBD compositions of the pickle: every composition but \<^verbatim>\<open>Sox\<close> is
  skipped (line 95).
\<close>

fun domains_loop ::
  "('x picked \<Rightarrow> 'y picked \<Rightarrow> py_error + 'm) \<Rightarrow> ('m \<Rightarrow> 'x picked \<Rightarrow> py_error + 'p)
    \<Rightarrow> 'x \<Rightarrow> 'x \<Rightarrow> (string, ('x, 'y, 'tf) pairwise_values) dict
    \<Rightarrow> (string, (string \<times> string, 'd) dict) dict
    \<Rightarrow> py_error + (string, (string \<times> string, 'd) dict) dict" where
  "domains_loop fit predict zeros ones [] models = Inr models"
| "domains_loop fit predict zeros ones ((domains, vals) # rest) models =
     (if domains \<noteq> ''Sox'' then domains_loop fit predict zeros ones rest models
      else (case regress_domains fit predict zeros ones vals of
              Inl e \<Rightarrow> Inl e
            | Inr entries \<Rightarrow>
                domains_loop fit predict zeros ones rest
                  (map (\<lambda>(k, v). (k, if k = domains then entries else v))
                     (setdefault domains [] models))))"

text \<open>
  \<^verbatim>\<open>train_models\<close>: nothing happens when \<^verbatim>\<open>models.pickle\<close> exists; otherwise the result is
  the dictionary written to it (beside the two describing entries \<^verbatim>\<open>Keys\<close> and
  \<^verbatim>\<open>Values\<close>, which are constant), \<open>None\<close> for no write.
\<close>

definition train_models ::
  "('x picked \<Rightarrow> 'y picked \<Rightarrow> py_error + 'm) \<Rightarrow> ('m \<Rightarrow> 'x picked \<Rightarrow> py_error + 'p)
    \<Rightarrow> 'x \<Rightarrow> 'x \<Rightarrow> bool \<Rightarrow> (string, ('x, 'y, 'tf) pairwise_values) dict
    \<Rightarrow> py_error + (string, (string \<times> string, 'd) dict) dict option" where
  "train_models fit predict zeros ones models_file_exists pairwise_pickle =
     (if models_file_exists then Inr None
      else (case domains_loop fit predict zeros ones pairwise_pickle [] of
              Inl e \<Rightarrow> Inl e
            | Inr models \<Rightarrow> Inr (Some models)))"

text \<open>
  An input with the composition \<^verbatim>\<open>Sox\<close>: three pairs of TFs with one row and one label
  each, and a regression that fits and predicts without an exception.
\<close>

definition example_pairwise :: "(string, (string, string, string) pairwise_values) dict" where
  "example_pairwise =
     [(''Sox'',
       \<lparr>values_Xs = [(''identity'', [''x0'', ''x1'', ''x2'']),
                     (''blosum62'', [''b0'', ''b1'', ''b2''])],
        values_Ys = [''8.5'', ''2.0'', ''9.1''],
        values_tfPairs = [[''SOX2'', ''SOX9''], [''SOX9'', ''SRY''], [''SOX2'', ''SRY'']]\<rparr>)]"

definition example_fit :: "string picked \<Rightarrow> string picked \<Rightarrow> py_error + unit" where
  "example_fit x_train y_train = Inr ()"

definition example_predict :: "unit \<Rightarrow> string picked \<Rightarrow> py_error + string" where
  "example_predict m_cv x = Inr ''0.0''"

section \<open>Leave-one-TF-out splits\<close>

lemma set_range_py: "set (range_py l) = {i. 0 \<le> i \<and> i < l}"
  by (auto simp: range_py_def)

lemma map_of_setdefault_keys: "fst ` set (setdefault k v d) = insert k (fst ` set d)"
  by (auto simp: setdefault_def map_of_eq_None_iff split: option.splits dest: map_of_SomeD
      intro: rev_image_eqI)

lemma distinct_setdefault: "distinct (map fst d) \<Longrightarrow> distinct (map fst (setdefault k v d))"
  by (auto simp: setdefault_def map_of_eq_None_iff split: option.splits)

lemma setdefault_empties:
  "\<forall>e \<in> set d. snd e = [] \<Longrightarrow> \<forall>e \<in> set (setdefault k [] d). snd e = []"
  by (auto simp: setdefault_def split: option.splits)

lemma fold_setdefault_inv:
  "distinct (map fst d) \<Longrightarrow> \<forall>e \<in> set d. snd e = [] \<Longrightarrow>
   distinct (map fst (fold (\<lambda>tf d'. setdefault tf [] d') tfPair d))
   \<and> (\<forall>e \<in> set (fold (\<lambda>tf d'. setdefault tf [] d') tfPair d). snd e = [])
   \<and> fst ` set (fold (\<lambda>tf d'. setdefault tf [] d') tfPair d) = fst ` set d \<union> set tfPair"
proof (induction tfPair arbitrary: d)
  case Nil
  then show ?case by simp
next
  case (Cons tf tfPair)
  have d1: "distinct (map fst (setdefault tf [] d))"
    using Cons.prems(1) by (rule distinct_setdefault)
  have d2: "\<forall>e \<in> set (setdefault tf [] d). snd e = []"
    using Cons.prems(2) by (rule setdefault_empties)
  from Cons.IH [OF d1 d2] show ?case
    by (simp add: map_of_setdefault_keys Un_commute insert_commute)
qed

lemma tf_names_inv_aux:
  "distinct (map fst d) \<Longrightarrow> \<forall>e \<in> set d. snd e = [] \<Longrightarrow>
   distinct (map fst (fold (\<lambda>tfPair d. fold (\<lambda>tf d'. setdefault tf [] d') tfPair d) tfPairs d))
   \<and> (\<forall>e \<in> set (fold (\<lambda>tfPair d. fold (\<lambda>tf d'. setdefault tf [] d') tfPair d) tfPairs d).
         snd e = [])
   \<and> fst ` set (fold (\<lambda>tfPair d. fold (\<lambda>tf d'. setdefault tf [] d') tfPair d) tfPairs d)
       = fst ` set d \<union> \<Union> (set ` set tfPairs)"
proof (induction tfPairs arbitrary: d)
  case Nil
  then show ?case by simp
next
  case (Cons tfPair tfPairs)
  note step = fold_setdefault_inv [OF Cons.prems, of tfPair]
  from Cons.IH [of "fold (\<lambda>tf d'. setdefault tf [] d') tfPair d"] step
  show ?case by (simp add: Un_assoc)
qed

lemma tf_names_inv:
  fixes tfPairs :: "'tf list list"
  shows "distinct (map fst (tf_names tfPairs))"
    and "\<forall>e \<in> set (tf_names tfPairs). snd e = []"
    and "fst ` set (tf_names tfPairs) = \<Union> (set ` set tfPairs)"
  using tf_names_inv_aux [of "[] :: ('tf, int list) dict" tfPairs]
  by (simp_all add: tf_names_def)

text \<open>
  What \<^verbatim>\<open>train_models\<close> hands to \<^verbatim>\<open>_leaveOneTFOut\<close> is a dictionary over exactly the
  TF names of the pairs, each mapped to the indices of the pairs that involve it.
\<close>

lemma tf_indices_keys: "distinct (map fst (tf_indices tfPairs))"
proof -
  have "map fst (tf_indices tfPairs) = map fst (tf_names tfPairs)"
    by (simp add: tf_indices_def case_prod_unfold comp_def)
  then show ?thesis by (simp add: tf_names_inv(1))
qed

lemma tf_indices_involving:
  "\<forall>(tf, idxs) \<in> set (tf_indices tfPairs). set idxs = pairs_involving tfPairs tf"
  using tf_names_inv(2) [of tfPairs]
  by (auto simp: tf_indices_def pairs_involving_def set_range_py)

text \<open>
  C1. For a dictionary \<open>tfIdxs\<close> that maps each TF name to the indices of the pairs
  involving it, and \<open>l\<close> the number of pairs, \<^verbatim>\<open>_leaveOneTFOut\<close> returns one split per
  TF, in the order of the dictionary: the test indices are exactly the indices of the
  pairs involving that TF, the training indices are exactly the other indices below
  \<open>l\<close>, no training index belongs to a pair involving the TF, and the two parts are
  disjoint and together are all of \<open>0, ..., l - 1\<close>.
\<close>

theorem leaveOneTFOut_split:
  fixes tfPairs :: "'tf list list"
  assumes "l = int (length tfPairs)"
    and "\<forall>(tf, idxs) \<in> set tfIdxs. set idxs = pairs_involving tfPairs tf"
  shows "length (leaveOneTFOut tfIdxs l) = length tfIdxs
     \<and> (\<forall>k < length tfIdxs.
          case (tfIdxs ! k, leaveOneTFOut tfIdxs l ! k) of
            ((tf, idxs), (trainIdx, testIdx)) \<Rightarrow>
              set testIdx = pairs_involving tfPairs tf
            \<and> set trainIdx = {i. 0 \<le> i \<and> i < l} - pairs_involving tfPairs tf
            \<and> (\<forall>i \<in> set trainIdx. tf \<notin> set (tfPairs ! nat i))
            \<and> set trainIdx \<inter> set testIdx = {}
            \<and> set trainIdx \<union> set testIdx = {i. 0 \<le> i \<and> i < l})"
proof (intro conjI allI impI)
  show "length (leaveOneTFOut tfIdxs l) = length tfIdxs"
    by (simp add: leaveOneTFOut_def)
next
  fix k assume k: "k < length tfIdxs"
  obtain tf idxs where e: "tfIdxs ! k = (tf, idxs)" by (cases "tfIdxs ! k")
  have "(tf, idxs) \<in> set tfIdxs" using k e by (metis nth_mem)
  with assms(2) have idxs: "set idxs = pairs_involving tfPairs tf" by auto
  have r: "leaveOneTFOut tfIdxs l ! k = (filter (\<lambda>i. i \<notin> set idxs) (range_py l), idxs)"
    using k e by (simp add: leaveOneTFOut_def)
  have sub: "pairs_involving tfPairs tf \<subseteq> {i. 0 \<le> i \<and> i < l}"
    using assms(1) by (auto simp: pairs_involving_def)
  show "case (tfIdxs ! k, leaveOneTFOut tfIdxs l ! k) of
            ((tf, idxs), (trainIdx, testIdx)) \<Rightarrow>
              set testIdx = pairs_involving tfPairs tf
            \<and> set trainIdx = {i. 0 \<le> i \<and> i < l} - pairs_involving tfPairs tf
            \<and> (\<forall>i \<in> set trainIdx. tf \<notin> set (tfPairs ! nat i))
            \<and> set trainIdx \<inter> set testIdx = {}
            \<and> set trainIdx \<union> set testIdx = {i. 0 \<le> i \<and> i < l}"
    unfolding e r using idxs sub assms(1)
    by (auto simp: set_range_py pairs_involving_def)
qed

theorem leaveOneTFOut_split_witness:
  "myCViterator [[''SOX2'', ''SOX9''], [''SOX9'', ''SRY'']]
     = [([1], [0]), ([], [0, 1]), ([0], [1])]
   \<and> set (snd (myCViterator [[''SOX2'', ''SOX9''], [''SOX9'', ''SRY'']] ! 1))
       = pairs_involving [[''SOX2'', ''SOX9''], [''SOX9'', ''SRY'']] ''SOX9''
   \<and> length (myCViterator [[''SOX2'', ''SOX9''], [''SOX9'', ''SRY'']]) = 3"
proof -
  let ?P = "[[''SOX2'', ''SOX9''], [''SOX9'', ''SRY'']]"
  have t: "tf_indices ?P = [(''SOX2'', [0]), (''SOX9'', [0, 1]), (''SRY'', [1])]"
    by (simp add: tf_indices_def tf_names_def setdefault_def range_py_def upto.simps)
  have v: "myCViterator ?P = [([1], [0]), ([], [0, 1]), ([0], [1])]"
    by (simp add: myCViterator_def t leaveOneTFOut_def range_py_def upto.simps)
  have k: "(1::nat) < length (tf_indices ?P)" by (simp add: t)
  note split = leaveOneTFOut_split [OF refl tf_indices_involving, of ?P]
  from split [THEN conjunct2, rule_format, OF k]
  have "set (snd (myCViterator ?P ! 1)) = pairs_involving ?P ''SOX9''"
    unfolding myCViterator_def [symmetric] by (simp add: t v)
  then show ?thesis using v by simp
qed

section \<open>Hits of a Tomtom table\<close>

lemma Tomtom_hits_loop_acc:
  "Tomtom_hits_loop float_py rows hits = Inr out \<Longrightarrow>
   \<exists>new. out = hits @ new
     \<and> map fst new = map (\<lambda>line. line ! 1) (filter is_hit_row rows)
     \<and> (\<forall>(target, x) \<in> set new. \<exists>line \<in> set rows.
           is_hit_row line \<and> 5 \<le> length line \<and> target = line ! 1
           \<and> float_py (line ! 4) = Inr x)"
proof (induction rows arbitrary: hits)
  case Nil
  then show ?case by simp
next
  case (Cons line rest)
  show ?case
  proof (cases "is_hit_row line")
    case False
    then have "Tomtom_hits_loop float_py rest hits = Inr out"
      using Cons.prems
      by (auto simp: is_hit_row_def item_def not_le less_Suc_eq_le split: if_splits sum.splits)
    from Cons.IH [OF this] False show ?thesis by auto
  next
    case True
    then obtain x where x: "5 \<le> length line" "float_py (line ! 4) = Inr x"
      and rec: "Tomtom_hits_loop float_py rest (hits @ [(line ! 1, x)]) = Inr out"
      using Cons.prems
      by (auto simp: is_hit_row_def item_def split: if_splits sum.splits)
    from Cons.IH [OF rec] obtain new where new: "out = (hits @ [(line ! 1, x)]) @ new"
      "map fst new = map (\<lambda>line. line ! 1) (filter is_hit_row rest)"
      "\<forall>(target, x) \<in> set new. \<exists>line \<in> set rest.
           is_hit_row line \<and> 5 \<le> length line \<and> target = line ! 1
           \<and> float_py (line ! 4) = Inr x"
      by blast
    show ?thesis
    proof (intro exI conjI)
      show "out = hits @ ((line ! 1, x) # new)" using new(1) by simp
      show "map fst ((line ! 1, x) # new)
              = map (\<lambda>line. line ! 1) (filter is_hit_row (line # rest))"
        using True new(2) by simp
      show "\<forall>(target, x) \<in> set ((line ! 1, x) # new). \<exists>line \<in> set (line # rest).
           is_hit_row line \<and> 5 \<le> length line \<and> target = line ! 1
           \<and> float_py (line ! 4) = Inr x"
        using True x new(3) by auto
    qed
  qed
qed

lemma Tomtom_hits_loop_returns:
  "\<forall>line \<in> set rows. well_formed_row float_py line \<Longrightarrow>
   \<exists>out. Tomtom_hits_loop float_py rows hits = Inr out"
proof (induction rows arbitrary: hits)
  case Nil
  then show ?case by simp
next
  case (Cons line rest)
  then have wf: "well_formed_row float_py line"
    and rest: "\<And>h. \<exists>out. Tomtom_hits_loop float_py rest h = Inr out"
    by simp_all
  obtain q fs where line: "line = q # fs"
    using wf by (cases line) (auto simp: well_formed_row_def)
  show ?case
  proof (cases "startswith q ''#'' \<or> q = ''Query_ID''")
    case True
    then show ?thesis using rest [of hits] by (auto simp: line item_def)
  next
    case False
    then have len: "5 \<le> length line" and "\<not> isl (float_py (line ! 4))"
      using wf by (auto simp: line well_formed_row_def)
    then obtain x where x: "float_py (line ! 4) = Inr x"
      by (cases "float_py (line ! 4)") auto
    have i1: "item line 1 = Inr (line ! 1)" and i4: "item line 4 = Inr (line ! 4)"
      using len by (simp_all add: item_def)
    have i0: "item line 0 = Inr q" by (simp add: line item_def)
    show ?thesis
      using False rest [of hits] rest [of "hits @ [(line ! 1, x)]"]
      by (simp add: i0 i1 i4 x del: One_nat_def)
  qed
qed

text \<open>
  C10. On a well-formed table \<^verbatim>\<open>_get_Tomtom_hits\<close> returns, and whatever it returns
  is, in the order of the table, one pair (target, E-value) for each row that is
  neither a comment nor the header and whose target differs from the query in the six
  leading characters; so no returned hit shares its six-character prefix with the query
  of its row.
\<close>

theorem get_Tomtom_hits_rows:
  "((\<forall>line \<in> set rows. well_formed_row float_py line)
       \<longrightarrow> (\<exists>hits. get_Tomtom_hits float_py rows = Inr hits))
   \<and> (\<forall>hits. get_Tomtom_hits float_py rows = Inr hits \<longrightarrow>
         map fst hits = map (\<lambda>line. line ! 1) (filter is_hit_row rows)
       \<and> (\<forall>(target, x) \<in> set hits. \<exists>line \<in> set rows.
             5 \<le> length line \<and> target = line ! 1 \<and> float_py (line ! 4) = Inr x
           \<and> \<not> startswith (line ! 0) ''#'' \<and> line ! 0 \<noteq> ''Query_ID''
           \<and> take 6 (line ! 0) \<noteq> take 6 target))"
proof (intro conjI impI allI)
  assume "\<forall>line \<in> set rows. well_formed_row float_py line"
  then show "\<exists>hits. get_Tomtom_hits float_py rows = Inr hits"
    unfolding get_Tomtom_hits_def by (rule Tomtom_hits_loop_returns)
next
  fix hits assume h: "get_Tomtom_hits float_py rows = Inr hits"
  from Tomtom_hits_loop_acc [of float_py rows "[]" hits] h
  show "map fst hits = map (\<lambda>line. line ! 1) (filter is_hit_row rows)"
    unfolding get_Tomtom_hits_def by auto
  from Tomtom_hits_loop_acc [of float_py rows "[]" hits] h
  show "\<forall>(target, x) \<in> set hits. \<exists>line \<in> set rows.
             5 \<le> length line \<and> target = line ! 1 \<and> float_py (line ! 4) = Inr x
           \<and> \<not> startswith (line ! 0) ''#'' \<and> line ! 0 \<noteq> ''Query_ID''
           \<and> take 6 (line ! 0) \<noteq> take 6 target"
    unfolding get_Tomtom_hits_def is_hit_row_def by fastforce
qed

text \<open>
  A table with a comment, the header, a hit on another version of the query's matrix
  and a hit on another matrix; the E-values are kept as their text.
\<close>

theorem get_Tomtom_hits_rows_witness:
  "get_Tomtom_hits Inr
     [[''# Tomtom''],
      [''Query_ID'', ''Target_ID'', ''Optimal_offset'', ''p-value'', ''E-value''],
      [''MA0001.2'', ''MA0001.1'', ''0'', ''1e-9'', ''2e-6''],
      [''MA0001.2'', ''MA0005.1'', ''1'', ''1e-3'', ''0.71'']]
   = Inr [(''MA0005.1'', ''0.71'')]
   \<and> map fst [(''MA0005.1'', ''0.71'')]
     = map (\<lambda>line. line ! 1) (filter is_hit_row
     [[''# Tomtom''],
      [''Query_ID'', ''Target_ID'', ''Optimal_offset'', ''p-value'', ''E-value''],
      [''MA0001.2'', ''MA0001.1'', ''0'', ''1e-9'', ''2e-6''],
      [''MA0001.2'', ''MA0005.1'', ''1'', ''1e-3'', ''0.71'']])"
proof -
  let ?rows = "[[''# Tomtom''],
      [''Query_ID'', ''Target_ID'', ''Optimal_offset'', ''p-value'', ''E-value''],
      [''MA0001.2'', ''MA0001.1'', ''0'', ''1e-9'', ''2e-6''],
      [''MA0001.2'', ''MA0005.1'', ''1'', ''1e-3'', ''0.71'']]"
  let ?float = "Inr :: string \<Rightarrow> py_error + string"
  have wf: "\<forall>line \<in> set ?rows. well_formed_row ?float line"
    by (simp add: well_formed_row_def startswith_def)
  have v: "get_Tomtom_hits ?float ?rows = Inr [(''MA0005.1'', ''0.71'')]"
    by (simp add: get_Tomtom_hits_def item_def startswith_def)
  note t = get_Tomtom_hits_rows [of ?rows ?float]
  from t [THEN conjunct1, THEN mp, OF wf] t [THEN conjunct2, THEN spec, THEN mp, OF v] v
  show ?thesis by simp
qed

section \<open>One profile per matrix, the greatest path\<close>
















section \<open>The profiles compared by Tomtom\<close>








lemma Tomtom_all_keeps:
  "Tomtom_all tool db ps dirs = Inr dirs' \<Longrightarrow> dirs n = Some t \<Longrightarrow> dirs' n = Some t"
proof (induction ps arbitrary: dirs)
  case Nil
  then show ?case by simp
next
  case (Cons p ps)
  then obtain dirs1 where s: "Tomtom tool p db dirs = Inr dirs1"
    and r: "Tomtom_all tool db ps dirs1 = Inr dirs'"
    by (auto split: sum.splits)
  from s Cons.prems(2) have "dirs1 n = Some t"
    by (auto simp: Tomtom_def Let_def split: option.splits if_splits)
  with Cons.IH [OF r] show ?case .
qed



















section \<open>All CORE profiles of all pages\<close>

lemma map_of_setdefault: "map_of (setdefault k v d) = map_of (d @ [(k, v)])"
  by (auto simp: setdefault_def map_add_def fun_eq_iff split: option.splits)

lemma set_setdefault: "set (setdefault k v d) \<subseteq> insert (k, v) (set d)"
  by (auto simp: setdefault_def split: option.splits)

lemma add_core_entries:
  "distinct (map fst d) \<Longrightarrow>
   distinct (map fst (add_core rs d))
   \<and> map_of (add_core rs d) = map_of (d @ core_of rs)
   \<and> set (add_core rs d) \<subseteq> set d \<union> set (core_of rs)
   \<and> fst ` set (add_core rs d)
       = fst ` set d \<union> fst ` set (core_of rs)"
proof (induction rs arbitrary: d)
  case Nil
  then show ?case by (simp add: add_core_def core_of_def)
next
  case (Cons r rs)
  show ?case
  proof (cases "profile_collection r = ''CORE''")
    case False
    with Cons.IH [OF Cons.prems] show ?thesis by (simp add: add_core_def core_of_def)
  next
    case True
    let ?d = "setdefault (profile_matrix_id r) (profile_name r) d"
    have d: "distinct (map fst ?d)" using Cons.prems by (rule distinct_setdefault)
    have step: "add_core (r # rs) d = add_core rs ?d" using True by (simp add: add_core_def)
    have ce: "core_of (r # rs)
        = (profile_matrix_id r, profile_name r) # core_of rs"
      using True by (simp add: core_of_def)
    from Cons.IH [OF d] have ih:
      "distinct (map fst (add_core rs ?d))"
      "map_of (add_core rs ?d) = map_of (?d @ core_of rs)"
      "set (add_core rs ?d) \<subseteq> set ?d \<union> set (core_of rs)"
      "fst ` set (add_core rs ?d)
         = fst ` set ?d \<union> fst ` set (core_of rs)"
      by simp_all
    have m: "map_of (add_core (r # rs) d)
        = map_of (d @ core_of (r # rs))"
      unfolding step ih(2) ce by (simp add: map_of_setdefault)
    have s: "set (add_core (r # rs) d)
        \<subseteq> set d \<union> set (core_of (r # rs))"
      unfolding step ce using ih(3) set_setdefault [of "profile_matrix_id r" "profile_name r" d]
      by auto
    have k: "fst ` set (add_core (r # rs) d)
        = fst ` set d \<union> fst ` set (core_of (r # rs))"
      unfolding step ce ih(4) by (auto simp: map_of_setdefault_keys)
    show ?thesis using ih(1) m s k by (simp add: step)
  qed
qed

lemma core_of_append: "core_of (a @ b) = core_of a @ core_of b"
  by (simp add: core_of_def)

lemma core_entries_Cons: "core_entries (p # ps) = core_of (page_results p) @ core_entries ps"
  by (simp add: core_entries_def core_of_append)

lemma core_entries_snoc: "core_entries (ps @ [p]) = core_entries ps @ core_of (page_results p)"
  by (simp add: core_entries_def core_of_append)

lemma pages_loop_linked:
  "linked client_get p qs \<Longrightarrow> distinct (map fst d) \<Longrightarrow>
   \<exists>d'. pages_loop client_get p d = Some (Inr (last (p # qs), d'))
     \<and> distinct (map fst d')
     \<and> map_of d' = map_of (d @ core_entries (butlast (p # qs)))
     \<and> set d' \<subseteq> set d \<union> set (core_entries (butlast (p # qs)))
     \<and> fst ` set d' = fst ` set d \<union> fst ` set (core_entries (butlast (p # qs)))"
proof (induction qs arbitrary: p d)
  case Nil
  then show ?case by (subst pages_loop.simps) (simp add: core_entries_def core_of_def)
next
  case (Cons q qs)
  from Cons.prems(1) obtain url where url: "page_next p = Some url" "client_get url = Inr q"
    and rest: "linked client_get q qs"
    by (auto split: option.splits)
  define d1 where "d1 = add_core (page_results p) d"
  define here where "here = core_of (page_results p)"
  define later where "later = core_entries (butlast (q # qs))"
  from add_core_entries [OF Cons.prems(2), of "page_results p"] have ac:
    "distinct (map fst d1)" "map_of d1 = map_of (d @ here)"
    "set d1 \<subseteq> set d \<union> set here" "fst ` set d1 = fst ` set d \<union> fst ` set here"
    unfolding d1_def here_def by simp_all
  from Cons.IH [OF rest ac(1)] obtain d' where d':
    "pages_loop client_get q d1 = Some (Inr (last (q # qs), d'))"
    "distinct (map fst d')"
    "map_of d' = map_of (d1 @ later)"
    "set d' \<subseteq> set d1 \<union> set later"
    "fst ` set d' = fst ` set d1 \<union> fst ` set later"
    unfolding later_def by blast
  have unfold: "pages_loop client_get p d = pages_loop client_get q d1"
    unfolding d1_def by (subst pages_loop.simps) (simp add: url)
  have bl: "core_entries (butlast (p # q # qs)) = here @ later"
    unfolding here_def later_def by (simp add: core_entries_Cons)
  have la: "last (p # q # qs) = last (q # qs)" by simp
  show ?case
    unfolding bl la
  proof (intro exI conjI)
    show "pages_loop client_get p d = Some (Inr (last (q # qs), d'))"
      unfolding unfold by (rule d'(1))
    show "distinct (map fst d')" by (rule d'(2))
    show "map_of d' = map_of (d @ here @ later)"
      unfolding d'(3) by (simp add: ac(2))
    show "set d' \<subseteq> set d \<union> set (here @ later)"
      using d'(4) ac(3) by auto
    show "fst ` set d' = fst ` set d \<union> fst ` set (here @ later)"
      unfolding d'(5) ac(4) by (simp add: image_Un Un_assoc)
  qed
qed

text \<open>
  C7. When the first request gives a page and the pages that follow are linked by
  \<^verbatim>\<open>next\<close> up to a page whose \<^verbatim>\<open>next\<close> is null, \<^verbatim>\<open>_get_profile_info\<close> returns, and the
  dictionary it writes has a key for the matrix ID of every CORE profile of every page,
  the last page too, mapped to the name of the first profile with that matrix ID; every
  entry of the dictionary is the matrix ID and name of a CORE profile, so no profile of
  another collection is recorded.
\<close>

theorem get_profile_info_all_pages:
  assumes "client_get (jaspar_url @ ''api/v1/taxon/'' @ taxon) = Inr first"
    and "linked client_get first rest"
  shows "\<exists>profiles. get_profile_info client_get jaspar_url taxon = Some (Inr profiles)
     \<and> distinct (map fst profiles)
     \<and> map_of profiles = map_of (core_entries (first # rest))
     \<and> set profiles \<subseteq> set (core_entries (first # rest))
     \<and> fst ` set profiles = fst ` set (core_entries (first # rest))"
proof -
  define before where "before = butlast (first # rest)"
  define final where "final = last (first # rest)"
  have pages: "first # rest = before @ [final]"
    unfolding before_def final_def by (rule append_butlast_last_id [symmetric]) simp
  from pages_loop_linked [OF assms(2), of "[]"] obtain d where d:
    "pages_loop client_get first [] = Some (Inr (final, d))"
    "distinct (map fst d)"
    "map_of d = map_of (core_entries before)"
    "set d \<subseteq> set (core_entries before)"
    "fst ` set d = fst ` set (core_entries before)"
    unfolding before_def [symmetric] final_def [symmetric] by auto
  note ac = add_core_entries [OF d(2), of "page_results final"]
  have split: "core_entries (first # rest) = core_entries before @ core_of (page_results final)"
    unfolding pages by (rule core_entries_snoc)
  have run: "get_profile_info client_get jaspar_url taxon
            = Some (Inr (add_core (page_results final) d))"
    using assms(1) d(1) by (simp add: get_profile_info_def)
  show ?thesis
  proof (intro exI conjI)
    show "get_profile_info client_get jaspar_url taxon
            = Some (Inr (add_core (page_results final) d))" by (rule run)
    show "distinct (map fst (add_core (page_results final) d))" using ac by simp
    show "map_of (add_core (page_results final) d) = map_of (core_entries (first # rest))"
      unfolding split using ac d(3) by simp
    show "set (add_core (page_results final) d) \<subseteq> set (core_entries (first # rest))"
      unfolding split using ac d(4) by auto
    show "fst ` set (add_core (page_results final) d) = fst ` set (core_entries (first # rest))"
      unfolding split using ac d(5) by auto
  qed
qed

theorem get_profile_info_all_pages_witness:
  "get_profile_info example_api ''http://jaspar.genereg.net/'' ''fungi''
     = Some (Inr [(''MA0265.1'', ''ABF1''), (''MA0266.1'', ''ABF2'')])
   \<and> map_of [(''MA0265.1'', ''ABF1''), (''MA0266.1'', ''ABF2'')] ''MA0266.1'' = Some ''ABF2''
   \<and> ''PB0001.1'' \<notin> fst ` set [(''MA0265.1'', ''ABF1''), (''MA0266.1'', ''ABF2'')]"
proof -
  let ?p1 = "\<lparr>page_next = Some ''page2'',
             page_results = [\<lparr>profile_collection = ''CORE'', profile_matrix_id = ''MA0265.1'',
                               profile_name = ''ABF1''\<rparr>,
                             \<lparr>profile_collection = ''PBM'', profile_matrix_id = ''PB0001.1'',
                               profile_name = ''Arid3a''\<rparr>]\<rparr>"
  let ?p2 = "\<lparr>page_next = None,
             page_results = [\<lparr>profile_collection = ''CORE'', profile_matrix_id = ''MA0266.1'',
                               profile_name = ''ABF2''\<rparr>]\<rparr>"
  have first: "example_api (''http://jaspar.genereg.net/'' @ ''api/v1/taxon/'' @ ''fungi'') = Inr ?p1"
    by (simp add: example_api_def)
  have chain: "linked example_api ?p1 [?p2]" by (simp add: example_api_def)
  have l2: "pages_loop example_api ?p2 d = Some (Inr (?p2, d))" for d
    by (subst pages_loop.simps) simp
  have l1: "pages_loop example_api ?p1 [] = Some (Inr (?p2, [(''MA0265.1'', ''ABF1'')]))"
    by (subst pages_loop.simps) (simp add: example_api_def l2 add_core_def setdefault_def)
  have v: "get_profile_info example_api ''http://jaspar.genereg.net/'' ''fungi''
     = Some (Inr [(''MA0265.1'', ''ABF1''), (''MA0266.1'', ''ABF2'')])"
    unfolding get_profile_info_def first
    by (simp add: l1 add_core_def setdefault_def)
  from get_profile_info_all_pages [OF first chain] obtain profiles where
    p: "get_profile_info example_api ''http://jaspar.genereg.net/'' ''fungi'' = Some (Inr profiles)"
    and k: "fst ` set profiles = fst ` set (core_entries [?p1, ?p2])"
    by blast
  from p v have e: "profiles = [(''MA0265.1'', ''ABF1''), (''MA0266.1'', ''ABF2'')]" by simp
  have "''PB0001.1'' \<notin> fst ` set (core_entries [?p1, ?p2])"
    by (simp add: core_entries_def core_of_def)
  then have n: "''PB0001.1'' \<notin> fst ` set [(''MA0265.1'', ''ABF1''), (''MA0266.1'', ''ABF2'')]"
    unfolding k [symmetric] e .
  have m: "map_of [(''MA0265.1'', ''ABF1''), (''MA0266.1'', ''ABF2'')] ''MA0266.1''
      = Some ''ABF2''" by simp
  show ?thesis by (intro conjI) (rule v, rule m, rule n)
qed

section \<open>The overrides of the sequence fetcher\<close>

lemma map_of_map_key:
  "map_of (map (\<lambda>(k, v). (k, g k v)) d) k = map_option (g k) (map_of d k)"
  by (induction d) auto

lemma map_of_setdefault_at:
  "map_of (setdefault k v d) k' =
     (case map_of d k' of Some x \<Rightarrow> Some x | None \<Rightarrow> if k' = k then Some v else None)"
  by (auto simp: setdefault_def map_add_def split: option.splits)

lemma profiles_of_add_uniacc:
  "set (profiles_of (add_uniacc p a d) acc)
     = set (profiles_of d acc) \<union> (if acc = strip_spaces a then {p} else {})"
proof (cases "map_of d acc")
  case None
  then show ?thesis
    by (simp add: profiles_of_def add_uniacc_def Let_def map_of_map_key map_of_setdefault_at)
next
  case (Some v)
  then show ?thesis
    by (cases v)
      (auto simp: profiles_of_def add_uniacc_def Let_def map_of_map_key map_of_setdefault_at)
qed

lemma profiles_of_fold_add:
  "set (profiles_of (fold (add_uniacc p) ids d) acc)
     = set (profiles_of d acc) \<union> (if acc \<in> strip_spaces ` set ids then {p} else {})"
  by (induction ids arbitrary: d) (auto simp: profiles_of_add_uniacc)

lemma uniaccs_loop_profiles:
  "uniaccs_loop client_get jaspar_url ps d = Inr out \<Longrightarrow>
   (\<forall>p \<in> set ps. \<exists>r. client_get (jaspar_url @ ''api/v1/matrix/'' @ p) = Inr r)
   \<and> (\<forall>acc. set (profiles_of out acc) = set (profiles_of d acc)
         \<union> {p \<in> set ps. \<exists>r. client_get (jaspar_url @ ''api/v1/matrix/'' @ p) = Inr r
                \<and> acc \<in> strip_spaces ` set (fixed_uniprot_ids r)})"
proof (induction ps arbitrary: d)
  case Nil
  then show ?case by simp
next
  case (Cons p ps)
  from Cons.prems obtain r where r: "client_get (jaspar_url @ ''api/v1/matrix/'' @ p) = Inr r"
    and rest: "uniaccs_loop client_get jaspar_url ps (fold (add_uniacc p) (fixed_uniprot_ids r) d)
                = Inr out"
    by (auto split: sum.splits)
  from Cons.IH [OF rest] r show ?case
    by (auto simp: profiles_of_fold_add split: if_splits)
qed

lemma sequences_loop_filled:
  "sequences_loop queryUniprot d filled queries = Inr (out, qs) \<Longrightarrow>
   \<exists>new newq. out = filled @ new \<and> qs = queries @ newq
     \<and> map (\<lambda>e. (fst e, fst (snd e))) new = map (\<lambda>e. (fst e, fst (snd e))) d
     \<and> set newq = {a \<in> fst ` set d. map_of faulty_sequences a = None}
     \<and> (\<forall>(acc, ps, seq) \<in> set new.
           case map_of faulty_sequences acc of
             Some lines \<Rightarrow> seq = Some (concat lines)
           | None \<Rightarrow> \<exists>text. queryUniprot acc = Inr text
                        \<and> seq = Some (filter (\<lambda>c. c \<noteq> newline) text))"
proof (induction d arbitrary: filled queries)
  case Nil
  then show ?case by simp
next
  case (Cons e d)
  obtain uniacc v where e: "e = (uniacc, v)" by (cases e)
  show ?case
  proof (cases "map_of faulty_sequences uniacc")
    case (Some lines)
    with Cons.prems e have
      "sequences_loop queryUniprot d (filled @ [(uniacc, (fst v, Some (concat lines)))]) queries
         = Inr (out, qs)" by simp
    from Cons.IH [OF this] obtain new newq where n:
      "out = (filled @ [(uniacc, (fst v, Some (concat lines)))]) @ new" "qs = queries @ newq"
      "map (\<lambda>e. (fst e, fst (snd e))) new = map (\<lambda>e. (fst e, fst (snd e))) d"
      "set newq = {a \<in> fst ` set d. map_of faulty_sequences a = None}"
      "\<forall>(acc, ps, seq) \<in> set new.
           case map_of faulty_sequences acc of
             Some lines \<Rightarrow> seq = Some (concat lines)
           | None \<Rightarrow> \<exists>text. queryUniprot acc = Inr text
                        \<and> seq = Some (filter (\<lambda>c. c \<noteq> newline) text)"
      by blast
    show ?thesis
    proof (intro exI conjI)
      show "out = filled @ ((uniacc, (fst v, Some (concat lines))) # new)" using n(1) by simp
      show "qs = queries @ newq" by (rule n(2))
      show "map (\<lambda>e. (fst e, fst (snd e))) ((uniacc, (fst v, Some (concat lines))) # new)
              = map (\<lambda>e. (fst e, fst (snd e))) (e # d)" using n(3) e by simp
      show "set newq = {a \<in> fst ` set (e # d). map_of faulty_sequences a = None}"
        using n(4) e Some by auto
      show "\<forall>(acc, ps, seq) \<in> set ((uniacc, (fst v, Some (concat lines))) # new).
           case map_of faulty_sequences acc of
             Some lines \<Rightarrow> seq = Some (concat lines)
           | None \<Rightarrow> \<exists>text. queryUniprot acc = Inr text
                        \<and> seq = Some (filter (\<lambda>c. c \<noteq> newline) text)"
        using n(5) Some by simp
    qed
  next
    case None
    with Cons.prems e obtain reply where t: "queryUniprot uniacc = Inr reply"
      and r: "sequences_loop queryUniprot d
         (filled @ [(uniacc, (fst v, Some (filter (\<lambda>c. c \<noteq> newline) reply)))])
         (queries @ [uniacc]) = Inr (out, qs)"
      by (auto split: sum.splits)
    from Cons.IH [OF r] obtain new newq where n:
      "out = (filled @ [(uniacc, (fst v, Some (filter (\<lambda>c. c \<noteq> newline) reply)))]) @ new"
      "qs = (queries @ [uniacc]) @ newq"
      "map (\<lambda>e. (fst e, fst (snd e))) new = map (\<lambda>e. (fst e, fst (snd e))) d"
      "set newq = {a \<in> fst ` set d. map_of faulty_sequences a = None}"
      "\<forall>(acc, ps, seq) \<in> set new.
           case map_of faulty_sequences acc of
             Some lines \<Rightarrow> seq = Some (concat lines)
           | None \<Rightarrow> \<exists>text. queryUniprot acc = Inr text
                        \<and> seq = Some (filter (\<lambda>c. c \<noteq> newline) text)"
      by blast
    show ?thesis
    proof (intro exI conjI)
      show "out = filled @ ((uniacc, (fst v, Some (filter (\<lambda>c. c \<noteq> newline) reply))) # new)"
        using n(1) by simp
      show "qs = queries @ (uniacc # newq)" using n(2) by simp
      show "map (\<lambda>e. (fst e, fst (snd e)))
               ((uniacc, (fst v, Some (filter (\<lambda>c. c \<noteq> newline) reply))) # new)
              = map (\<lambda>e. (fst e, fst (snd e))) (e # d)" using n(3) e by simp
      show "set (uniacc # newq) = {a \<in> fst ` set (e # d). map_of faulty_sequences a = None}"
        using n(4) e None by auto
      show "\<forall>(acc, ps, seq) \<in> set ((uniacc, (fst v, Some (filter (\<lambda>c. c \<noteq> newline) reply))) # new).
           case map_of faulty_sequences acc of
             Some lines \<Rightarrow> seq = Some (concat lines)
           | None \<Rightarrow> \<exists>text. queryUniprot acc = Inr text
                        \<and> seq = Some (filter (\<lambda>c. c \<noteq> newline) text)"
        using n(5) None t by simp
    qed
  qed
qed

lemma uniaccs_loop_returns:
  "\<forall>p \<in> set ps. \<exists>r. client_get (jaspar_url @ ''api/v1/matrix/'' @ p) = Inr r \<Longrightarrow>
   \<exists>out. uniaccs_loop client_get jaspar_url ps d = Inr out"
proof (induction ps arbitrary: d)
  case Nil
  show ?case by simp
next
  case (Cons p ps)
  from Cons.prems obtain r where r: "client_get (jaspar_url @ ''api/v1/matrix/'' @ p) = Inr r"
    by auto
  have "\<forall>p \<in> set ps. \<exists>r. client_get (jaspar_url @ ''api/v1/matrix/'' @ p) = Inr r"
    using Cons.prems by simp
  from Cons.IH [OF this, of "fold (add_uniacc p) (fixed_uniprot_ids r) d"] show ?case
    using r by simp
qed

lemma sequences_loop_returns:
  "\<forall>acc \<in> fst ` set d. map_of faulty_sequences acc = None \<longrightarrow> (\<exists>t. queryUniprot acc = Inr t) \<Longrightarrow>
   \<exists>out qs. sequences_loop queryUniprot d filled queries = Inr (out, qs)"
proof (induction d arbitrary: filled queries)
  case Nil
  show ?case by simp
next
  case (Cons e d)
  obtain uniacc v where e: "e = (uniacc, v)" by (cases e)
  have later: "\<forall>acc \<in> fst ` set d. map_of faulty_sequences acc = None
                 \<longrightarrow> (\<exists>t. queryUniprot acc = Inr t)"
    using Cons.prems by simp
  show ?case
  proof (cases "map_of faulty_sequences uniacc")
    case (Some lines)
    from Cons.IH [OF later, of "filled @ [(uniacc, (fst v, Some (concat lines)))]" queries]
    show ?thesis using e Some by simp
  next
    case None
    with Cons.prems e obtain reply where t: "queryUniprot uniacc = Inr reply" by auto
    from Cons.IH [OF later,
        of "filled @ [(uniacc, (fst v, Some (filter (\<lambda>c. c \<noteq> newline) reply)))]"
           "queries @ [uniacc]"]
    show ?thesis using e None t by simp
  qed
qed

lemma collect_uniaccs_overrides:
  assumes c: "collect_uniaccs client_get jaspar_url profiles = Inr uniaccs"
    and p: "p \<in> fst ` set profiles"
  shows "\<exists>r. client_get (jaspar_url @ ''api/v1/matrix/'' @ p) = Inr r
           \<and> (\<forall>acc. p \<in> set (profiles_of uniaccs acc) \<longleftrightarrow>
                 acc \<in> strip_spaces ` set
                   (case map_of faulty_profiles (matrix_matrix_id r) of
                      Some ids \<Rightarrow> ids
                    | None \<Rightarrow> matrix_uniprot_ids r))"
proof -
  from uniaccs_loop_profiles [OF c [unfolded collect_uniaccs_def]] have
    all: "\<forall>p \<in> set (sort (map fst profiles)).
            \<exists>r. client_get (jaspar_url @ ''api/v1/matrix/'' @ p) = Inr r"
    and sets: "\<And>acc. set (profiles_of uniaccs acc) = set (profiles_of [] acc)
         \<union> {p \<in> set (sort (map fst profiles)).
              \<exists>r. client_get (jaspar_url @ ''api/v1/matrix/'' @ p) = Inr r
                \<and> acc \<in> strip_spaces ` set (fixed_uniprot_ids r)}"
    by blast+
  from all p obtain r where r: "client_get (jaspar_url @ ''api/v1/matrix/'' @ p) = Inr r"
    by auto
  have "p \<in> set (profiles_of uniaccs acc) \<longleftrightarrow>
          acc \<in> strip_spaces ` set (fixed_uniprot_ids r)" for acc
    unfolding sets using p r by (auto simp: profiles_of_def)
  then show ?thesis
    using r unfolding fixed_uniprot_ids_def by blast
qed

lemma fetch_sequences_overrides:
  assumes f: "fetch_sequences queryUniprot d = Inr (filled, queries)"
  shows "map (\<lambda>e. (fst e, fst (snd e))) filled = map (\<lambda>e. (fst e, fst (snd e))) d
      \<and> (\<forall>(acc, ps, seq) \<in> set filled.
           case map_of faulty_sequences acc of
             Some lines \<Rightarrow> seq = Some (concat lines) \<and> acc \<notin> set queries
           | None \<Rightarrow> acc \<in> set queries
                \<and> (\<exists>text. queryUniprot acc = Inr text
                      \<and> seq = Some (filter (\<lambda>c. c \<noteq> newline) text)))"
proof (rule conjI)
  from sequences_loop_filled [OF f [unfolded fetch_sequences_def]] have
    m: "map (\<lambda>e. (fst e, fst (snd e))) filled = map (\<lambda>e. (fst e, fst (snd e))) d"
    and q: "set queries = {a \<in> fst ` set d. map_of faulty_sequences a = None}"
    and s: "\<forall>(acc, ps, seq) \<in> set filled.
           case map_of faulty_sequences acc of
             Some lines \<Rightarrow> seq = Some (concat lines)
           | None \<Rightarrow> \<exists>text. queryUniprot acc = Inr text
                        \<and> seq = Some (filter (\<lambda>c. c \<noteq> newline) text)"
    by auto
  show "map (\<lambda>e. (fst e, fst (snd e))) filled = map (\<lambda>e. (fst e, fst (snd e))) d" by (rule m)
  have keys: "fst ` set filled = fst ` set d"
  proof -
    have "map fst filled = map fst d"
      using arg_cong [OF m, of "map fst"] by (simp add: comp_def)
    then show ?thesis by (metis set_map)
  qed
  show "\<forall>(acc, ps, seq) \<in> set filled.
           case map_of faulty_sequences acc of
             Some lines \<Rightarrow> seq = Some (concat lines) \<and> acc \<notin> set queries
           | None \<Rightarrow> acc \<in> set queries
                \<and> (\<exists>text. queryUniprot acc = Inr text
                      \<and> seq = Some (filter (\<lambda>c. c \<noteq> newline) text))"
  proof (rule ballI, clarify)
    fix acc ps seq assume e: "(acc, ps, seq) \<in> set filled"
    then have "acc \<in> fst ` set d" unfolding keys [symmetric] by force
    with s e q show "case map_of faulty_sequences acc of
             Some lines \<Rightarrow> seq = Some (concat lines) \<and> acc \<notin> set queries
           | None \<Rightarrow> acc \<in> set queries
                \<and> (\<exists>text. queryUniprot acc = Inr text
                      \<and> seq = Some (filter (\<lambda>c. c \<noteq> newline) text))"
      by (cases "map_of faulty_sequences acc") auto
  qed
qed

text \<open>
  C6. The first half of the function returns when the API answers the request for every
  profile, and the second when the database answers for every accession that is not in
  the table of faulty sequences. Where the first half returns, a profile is recorded
  for exactly the accessions (spaces stripped) of the table of faulty profiles when the
  matrix ID of its record is in the table, whatever accessions the API returned, and
  for the accessions of the API otherwise. Where the second half returns, filling in
  the sequences has kept the accessions and their profiles; an accession of the table
  of faulty sequences got the hard-coded lines joined and was never asked of the
  database; every other accession was asked of the database and got the text it
  returned, without the line breaks.
\<close>

theorem UniProt_overrides:
  "((\<forall>p \<in> fst ` set profiles. \<exists>r. client_get (jaspar_url @ ''api/v1/matrix/'' @ p) = Inr r)
      \<longrightarrow> (\<exists>uniaccs. collect_uniaccs client_get jaspar_url profiles = Inr uniaccs))
   \<and> ((\<forall>acc \<in> fst ` set d. map_of faulty_sequences acc = None
           \<longrightarrow> (\<exists>text. queryUniprot acc = Inr text))
      \<longrightarrow> (\<exists>filled queries. fetch_sequences queryUniprot d = Inr (filled, queries)))
   \<and> (\<forall>uniaccs. collect_uniaccs client_get jaspar_url profiles = Inr uniaccs \<longrightarrow>
      (\<forall>p \<in> fst ` set profiles.
         \<exists>r. client_get (jaspar_url @ ''api/v1/matrix/'' @ p) = Inr r
           \<and> (\<forall>acc. p \<in> set (profiles_of uniaccs acc) \<longleftrightarrow>
                 acc \<in> strip_spaces ` set
                   (case map_of faulty_profiles (matrix_matrix_id r) of
                      Some ids \<Rightarrow> ids
                    | None \<Rightarrow> matrix_uniprot_ids r))))
   \<and> (\<forall>filled queries. fetch_sequences queryUniprot d = Inr (filled, queries) \<longrightarrow>
        map (\<lambda>e. (fst e, fst (snd e))) filled = map (\<lambda>e. (fst e, fst (snd e))) d
      \<and> (\<forall>(acc, ps, seq) \<in> set filled.
           case map_of faulty_sequences acc of
             Some lines \<Rightarrow> seq = Some (concat lines) \<and> acc \<notin> set queries
           | None \<Rightarrow> acc \<in> set queries
                \<and> (\<exists>text. queryUniprot acc = Inr text
                      \<and> seq = Some (filter (\<lambda>c. c \<noteq> newline) text))))"
proof (intro conjI)
  show "(\<forall>p \<in> fst ` set profiles. \<exists>r. client_get (jaspar_url @ ''api/v1/matrix/'' @ p) = Inr r)
      \<longrightarrow> (\<exists>uniaccs. collect_uniaccs client_get jaspar_url profiles = Inr uniaccs)"
  proof
    assume "\<forall>p \<in> fst ` set profiles. \<exists>r. client_get (jaspar_url @ ''api/v1/matrix/'' @ p) = Inr r"
    then have "\<forall>p \<in> set (sort (map fst profiles)).
                 \<exists>r. client_get (jaspar_url @ ''api/v1/matrix/'' @ p) = Inr r"
      by simp
    then show "\<exists>uniaccs. collect_uniaccs client_get jaspar_url profiles = Inr uniaccs"
      unfolding collect_uniaccs_def by (rule uniaccs_loop_returns)
  qed
  show "(\<forall>acc \<in> fst ` set d. map_of faulty_sequences acc = None
           \<longrightarrow> (\<exists>text. queryUniprot acc = Inr text))
      \<longrightarrow> (\<exists>filled queries. fetch_sequences queryUniprot d = Inr (filled, queries))"
    unfolding fetch_sequences_def by (rule impI) (rule sequences_loop_returns)
  show "\<forall>uniaccs. collect_uniaccs client_get jaspar_url profiles = Inr uniaccs \<longrightarrow>
      (\<forall>p \<in> fst ` set profiles.
         \<exists>r. client_get (jaspar_url @ ''api/v1/matrix/'' @ p) = Inr r
           \<and> (\<forall>acc. p \<in> set (profiles_of uniaccs acc) \<longleftrightarrow>
                 acc \<in> strip_spaces ` set
                   (case map_of faulty_profiles (matrix_matrix_id r) of
                      Some ids \<Rightarrow> ids
                    | None \<Rightarrow> matrix_uniprot_ids r)))"
    by (intro allI impI ballI) (rule collect_uniaccs_overrides)
  show "\<forall>filled queries. fetch_sequences queryUniprot d = Inr (filled, queries) \<longrightarrow>
        map (\<lambda>e. (fst e, fst (snd e))) filled = map (\<lambda>e. (fst e, fst (snd e))) d
      \<and> (\<forall>(acc, ps, seq) \<in> set filled.
           case map_of faulty_sequences acc of
             Some lines \<Rightarrow> seq = Some (concat lines) \<and> acc \<notin> set queries
           | None \<Rightarrow> acc \<in> set queries
                \<and> (\<exists>text. queryUniprot acc = Inr text
                      \<and> seq = Some (filter (\<lambda>c. c \<noteq> newline) text)))"
    by (rule allI, rule allI, rule impI) (rule fetch_sequences_overrides)
qed

lemma example_uniaccs:
  "collect_uniaccs example_matrix ''http://jaspar.genereg.net/''
     [(''MA0024.1'', ''E2F1''), (''MA0001.1'', ''AGL3''), (''MA0999.1'', ''LFY'')]
   = Inr [(''P29383'', ([''MA0001.1''], None)), (''Q01094'', ([''MA0024.1''], None)),
          (''B9GPL8'', ([''MA0999.1''], None))]"
  by (simp add: collect_uniaccs_def example_matrix_def fixed_uniprot_ids_def
      faulty_profiles_def add_uniacc_def strip_spaces_def setdefault_def)

lemma example_sequences:
  "fetch_sequences example_uniprot
     [(''P29383'', ([''MA0001.1''], None)), (''Q01094'', ([''MA0024.1''], None)),
      (''B9GPL8'', ([''MA0999.1''], None))]
   = Inr ([(''P29383'', ([''MA0001.1''], Some ''MGRG'')),
           (''Q01094'', ([''MA0024.1''], Some ''MALA'')),
           (''B9GPL8'', ([''MA0999.1''], Some (concat B9GPL8_lines)))],
          [''P29383'', ''Q01094''])"
  by (simp add: fetch_sequences_def faulty_sequences_def example_uniprot_def newline_def)

theorem UniProt_overrides_witness:
  "(\<exists>uniaccs. collect_uniaccs example_matrix ''http://jaspar.genereg.net/''
     [(''MA0024.1'', ''E2F1''), (''MA0001.1'', ''AGL3''), (''MA0999.1'', ''LFY'')] = Inr uniaccs)
   \<and> (\<exists>filled queries. fetch_sequences example_uniprot
     [(''P29383'', ([''MA0001.1''], None)), (''Q01094'', ([''MA0024.1''], None)),
      (''B9GPL8'', ([''MA0999.1''], None))] = Inr (filled, queries))
   \<and> collect_uniaccs example_matrix ''http://jaspar.genereg.net/''
     [(''MA0024.1'', ''E2F1''), (''MA0001.1'', ''AGL3''), (''MA0999.1'', ''LFY'')]
   = Inr [(''P29383'', ([''MA0001.1''], None)), (''Q01094'', ([''MA0024.1''], None)),
          (''B9GPL8'', ([''MA0999.1''], None))]
   \<and> fetch_sequences example_uniprot
     [(''P29383'', ([''MA0001.1''], None)), (''Q01094'', ([''MA0024.1''], None)),
      (''B9GPL8'', ([''MA0999.1''], None))]
   = Inr ([(''P29383'', ([''MA0001.1''], Some ''MGRG'')),
           (''Q01094'', ([''MA0024.1''], Some ''MALA'')),
           (''B9GPL8'', ([''MA0999.1''], Some (concat B9GPL8_lines)))],
          [''P29383'', ''Q01094''])
   \<and> ''B9GPL8'' \<notin> set [''P29383'', ''Q01094'']
   \<and> ''MA0024.1'' \<in> set (profiles_of
        [(''P29383'', ([''MA0001.1''], None)), (''Q01094'', ([''MA0024.1''], None)),
         (''B9GPL8'', ([''MA0999.1''], None))] ''Q01094'')"
proof -
  note t = UniProt_overrides [of
      "[(''MA0024.1'', ''E2F1''), (''MA0001.1'', ''AGL3''), (''MA0999.1'', ''LFY'')]"
      example_matrix "''http://jaspar.genereg.net/''"
      "[(''P29383'', ([''MA0001.1''], None)), (''Q01094'', ([''MA0024.1''], None)),
        (''B9GPL8'', ([''MA0999.1''], None))]"
      example_uniprot]
  have answers: "\<forall>p \<in> fst ` set
      [(''MA0024.1'', ''E2F1''), (''MA0001.1'', ''AGL3''), (''MA0999.1'', ''LFY'')].
      \<exists>r. example_matrix (''http://jaspar.genereg.net/'' @ ''api/v1/matrix/'' @ p) = Inr r"
    by (simp add: example_matrix_def)
  from t [THEN conjunct1] answers have ret1:
    "\<exists>uniaccs. collect_uniaccs example_matrix ''http://jaspar.genereg.net/''
     [(''MA0024.1'', ''E2F1''), (''MA0001.1'', ''AGL3''), (''MA0999.1'', ''LFY'')] = Inr uniaccs"
    by (rule mp)
  have known: "\<forall>acc \<in> fst ` set
      [(''P29383'', ([''MA0001.1''], None :: string option)), (''Q01094'', ([''MA0024.1''], None)),
        (''B9GPL8'', ([''MA0999.1''], None))].
      map_of faulty_sequences acc = None \<longrightarrow> (\<exists>text. example_uniprot acc = Inr text)"
    by (simp add: example_uniprot_def faulty_sequences_def)
  from t [THEN conjunct2, THEN conjunct1] known have ret2:
    "\<exists>filled queries. fetch_sequences example_uniprot
     [(''P29383'', ([''MA0001.1''], None)), (''Q01094'', ([''MA0024.1''], None)),
      (''B9GPL8'', ([''MA0999.1''], None))] = Inr (filled, queries)"
    by (rule mp)
  have in_profiles: "''MA0024.1'' \<in> fst ` set
      [(''MA0024.1'', ''E2F1''), (''MA0001.1'', ''AGL3''), (''MA0999.1'', ''LFY'')]" by simp
  have r: "example_matrix (''http://jaspar.genereg.net/'' @ ''api/v1/matrix/'' @ ''MA0024.1'')
      = Inr \<lparr>matrix_matrix_id = ''MA0024.1'', matrix_uniprot_ids = [''P12345'', ''P67890'']\<rparr>"
    by (simp add: example_matrix_def)
  from t [THEN conjunct2, THEN conjunct2, THEN conjunct1, THEN spec, THEN mp,
      OF example_uniaccs, THEN bspec, OF in_profiles]
  obtain r' where r': "example_matrix (''http://jaspar.genereg.net/'' @ ''api/v1/matrix/'' @ ''MA0024.1'') = Inr r'"
    and iff: "\<And>acc. ''MA0024.1'' \<in> set (profiles_of
        [(''P29383'', ([''MA0001.1''], None)), (''Q01094'', ([''MA0024.1''], None)),
         (''B9GPL8'', ([''MA0999.1''], None))] acc) \<longleftrightarrow>
         acc \<in> strip_spaces ` set
                   (case map_of faulty_profiles (matrix_matrix_id r') of
                      Some ids \<Rightarrow> ids
                    | None \<Rightarrow> matrix_uniprot_ids r')"
    by blast
  from r r' have r'_eq: "r' = \<lparr>matrix_matrix_id = ''MA0024.1'',
      matrix_uniprot_ids = [''P12345'', ''P67890'']\<rparr>" by simp
  have "''Q01094'' \<in> strip_spaces ` set
                   (case map_of faulty_profiles (matrix_matrix_id r') of
                      Some ids \<Rightarrow> ids
                    | None \<Rightarrow> matrix_uniprot_ids r')"
    unfolding r'_eq by (simp add: faulty_profiles_def strip_spaces_def)
  then have a: "''MA0024.1'' \<in> set (profiles_of
        [(''P29383'', ([''MA0001.1''], None)), (''Q01094'', ([''MA0024.1''], None)),
         (''B9GPL8'', ([''MA0999.1''], None))] ''Q01094'')"
    unfolding iff .
  from t [THEN conjunct2, THEN conjunct2, THEN conjunct2, THEN spec, THEN spec, THEN mp,
      OF example_sequences]
  have "\<forall>(acc, ps, seq) \<in> set [(''P29383'', ([''MA0001.1''], Some ''MGRG'')),
           (''Q01094'', ([''MA0024.1''], Some ''MALA'')),
           (''B9GPL8'', ([''MA0999.1''], Some (concat B9GPL8_lines)))].
           case map_of faulty_sequences acc of
             Some lines \<Rightarrow> seq = Some (concat lines) \<and> acc \<notin> set [''P29383'', ''Q01094'']
           | None \<Rightarrow> acc \<in> set [''P29383'', ''Q01094'']
                \<and> (\<exists>text. example_uniprot acc = Inr text
                      \<and> seq = Some (filter (\<lambda>c. c \<noteq> newline) text))"
    by (rule conjunct2)
  then have b: "''B9GPL8'' \<notin> set [''P29383'', ''Q01094'']"
    by (simp add: faulty_sequences_def)
  show ?thesis
    by (intro conjI) (rule ret1, rule ret2, rule example_uniaccs, rule example_sequences,
        rule b, rule a)
qed

section \<open>Scanning and realigning\<close>

lemma map_of_dict_append:
  "map_of (dict_append k x d) k' =
     (if k' = k then map_option (\<lambda>l. l @ [x]) (map_of d k') else map_of d k')"
  by (induction d) (auto simp: dict_append_def)

lemma keys_dict_append: "map fst (dict_append k x d) = map fst d"
  by (induction d) (auto simp: dict_append_def)

lemma DBD_loop_appends:
  "map_of pfams uniacc = Some l \<Longrightarrow>
   map fst (fst (DBD_loop makeSeqFile hmmAlign uniacc seq hits pfams seq_file)) = map fst pfams
   \<and> (\<forall>k. map_of (fst (DBD_loop makeSeqFile hmmAlign uniacc seq hits pfams seq_file)) k
         = (if k = uniacc then Some (l @ map (realigned makeSeqFile hmmAlign uniacc seq) hits)
            else map_of pfams k))"
proof (induction hits arbitrary: pfams seq_file l)
  case Nil
  then show ?case by simp
next
  case (Cons hit hits)
  obtain pfam_ac start "end" evalue where hit: "hit = (pfam_ac, start, end, evalue)"
    by (cases hit) auto
  define x where "x = realigned makeSeqFile hmmAlign uniacc seq hit"
  have m: "map_of (dict_append uniacc x pfams) uniacc = Some (l @ [x])"
    using Cons.prems by (simp add: map_of_dict_append)
  from Cons.IH [OF m] show ?case
    unfolding x_def hit
    by (simp add: Let_def realigned_def map_of_dict_append keys_dict_append)
qed

lemma uniacc_loop_result:
  assumes "distinct (map fst uniaccs)" and "distinct (map fst pfams)"
    and "fst ` set pfams \<inter> fst ` set uniaccs = {}"
  shows "map fst (fst (uniacc_loop makeSeqFile hmmScan hmmAlign uniaccs pfams seq_file))
           = map fst pfams @ map fst uniaccs
     \<and> (\<forall>k. map_of (fst (uniacc_loop makeSeqFile hmmScan hmmAlign uniaccs pfams seq_file)) k
           = (case map_of uniaccs k of
                Some v \<Rightarrow> Some (map (realigned makeSeqFile hmmAlign k (snd v))
                             (hmmScan (Some (makeSeqFile (k, snd v))) ''pfam-DBDs/all_DBDs.hmm''
                                True))
              | None \<Rightarrow> map_of pfams k))"
  using assms
proof (induction uniaccs arbitrary: pfams seq_file)
  case Nil
  then show ?case by simp
next
  case (Cons e rest)
  obtain uniacc v where e: "e = (uniacc, v)" by (cases e)
  define file1 where "file1 = Some (makeSeqFile (uniacc, snd v))"
  define hits where "hits = hmmScan file1 ''pfam-DBDs/all_DBDs.hmm'' True"
  define pfams1 where "pfams1 = setdefault uniacc [] pfams"
  define r where "r = DBD_loop makeSeqFile hmmAlign uniacc (snd v) hits pfams1 file1"
  have fresh: "uniacc \<notin> fst ` set pfams" using Cons.prems(3) e by auto
  then have p1: "pfams1 = pfams @ [(uniacc, [])]"
    by (auto simp: pfams1_def setdefault_def map_of_eq_None_iff split: option.splits)
  have "map_of pfams uniacc = None" using fresh by (simp add: map_of_eq_None_iff)
  then have m1: "map_of pfams1 uniacc = Some []"
    by (simp add: p1 map_add_def)
  from DBD_loop_appends [OF m1, of makeSeqFile hmmAlign "snd v" hits file1]
  have keys: "map fst (fst r) = map fst pfams1"
    and vals: "\<And>k. map_of (fst r) k
         = (if k = uniacc then Some (map (realigned makeSeqFile hmmAlign uniacc (snd v)) hits)
            else map_of pfams1 k)"
    unfolding r_def by simp_all
  have step: "uniacc_loop makeSeqFile hmmScan hmmAlign (e # rest) pfams seq_file
      = uniacc_loop makeSeqFile hmmScan hmmAlign rest (fst r) (snd r)"
    unfolding e r_def pfams1_def hits_def file1_def
    by (simp add: Let_def case_prod_beta)
  have d_rest: "distinct (map fst rest)" and notin: "uniacc \<notin> fst ` set rest"
    using Cons.prems(1) e by auto
  have d_r: "distinct (map fst (fst r))"
    unfolding keys p1 using Cons.prems(2) fresh by auto
  have disj: "fst ` set (fst r) \<inter> fst ` set rest = {}"
  proof -
    have "fst ` set (fst r) = set (map fst (fst r))" by simp
    also have "\<dots> = insert uniacc (fst ` set pfams)" unfolding keys p1 by auto
    finally show ?thesis using Cons.prems(3) notin e by auto
  qed
  from Cons.IH [OF d_rest d_r disj, of "snd r"] have
    ih1: "map fst (fst (uniacc_loop makeSeqFile hmmScan hmmAlign rest (fst r) (snd r)))
           = map fst (fst r) @ map fst rest"
    and ih2: "\<And>k. map_of (fst (uniacc_loop makeSeqFile hmmScan hmmAlign rest (fst r) (snd r))) k
           = (case map_of rest k of
                Some v \<Rightarrow> Some (map (realigned makeSeqFile hmmAlign k (snd v))
                             (hmmScan (Some (makeSeqFile (k, snd v))) ''pfam-DBDs/all_DBDs.hmm''
                                True))
              | None \<Rightarrow> map_of (fst r) k)"
    by simp_all
  have none: "map_of rest uniacc = None" using notin by (simp add: map_of_eq_None_iff)
  show ?case
    unfolding step
  proof (intro conjI allI)
    show "map fst (fst (uniacc_loop makeSeqFile hmmScan hmmAlign rest (fst r) (snd r)))
            = map fst pfams @ map fst (e # rest)"
      unfolding ih1 keys p1 e by simp
    fix k
    show "map_of (fst (uniacc_loop makeSeqFile hmmScan hmmAlign rest (fst r) (snd r))) k
           = (case map_of (e # rest) k of
                Some v \<Rightarrow> Some (map (realigned makeSeqFile hmmAlign k (snd v))
                             (hmmScan (Some (makeSeqFile (k, snd v))) ''pfam-DBDs/all_DBDs.hmm''
                                True))
              | None \<Rightarrow> map_of pfams k)"
    proof (cases "k = uniacc")
      case True
      then show ?thesis
        unfolding ih2 by (simp add: none vals e hits_def file1_def)
    next
      case False
      then show ?thesis
        unfolding ih2 vals e by (simp add: p1 map_add_def split: option.splits)
    qed
  qed
qed

text \<open>
  C8. For the accessions of a UniProt file, \<^verbatim>\<open>_get_Pfam_alignments\<close> records, under every
  accession and in the order of the hits, one tuple for each hit that \<^verbatim>\<open>hmmScan\<close> returns
  for the file of the whole sequence, the database of all DBDs and non-overlapping
  domains: the Pfam accession, the alignment \<^verbatim>\<open>hmmAlign\<close> gives for the file of the
  subsequence \<^verbatim>\<open>seq[start:end]\<close> and the HMM file of that accession, the start plus one,
  the end and the E-value.
\<close>

theorem get_Pfam_alignments_realigned:
  assumes "distinct (map fst uniaccs)"
  shows "map fst (get_Pfam_alignments makeSeqFile hmmScan hmmAlign uniaccs seq_file)
           = map fst uniaccs
     \<and> (\<forall>(uniacc, profiles, seq) \<in> set uniaccs.
           map_of (get_Pfam_alignments makeSeqFile hmmScan hmmAlign uniaccs seq_file) uniacc
           = Some (map (\<lambda>(pfam_ac, start, end, evalue).
                          (pfam_ac,
                           hmmAlign (Some (makeSeqFile (uniacc, py_slice seq start end)))
                             (''pfam-DBDs/'' @ pfam_ac @ ''.hmm''),
                           start + 1, end, evalue))
                     (hmmScan (Some (makeSeqFile (uniacc, seq))) ''pfam-DBDs/all_DBDs.hmm''
                        True)))"
proof -
  note r = uniacc_loop_result [OF assms, of "[]" makeSeqFile hmmScan hmmAlign seq_file,
      simplified]
  have f: "realigned makeSeqFile hmmAlign uniacc seq
      = (\<lambda>(pfam_ac, start, end, evalue).
                          (pfam_ac,
                           hmmAlign (Some (makeSeqFile (uniacc, py_slice seq start end)))
                             (''pfam-DBDs/'' @ pfam_ac @ ''.hmm''),
                           start + 1, end, evalue))" for uniacc seq
    by (auto simp: realigned_def fun_eq_iff)
  show ?thesis
  proof (intro conjI ballI)
    show "map fst (get_Pfam_alignments makeSeqFile hmmScan hmmAlign uniaccs seq_file)
           = map fst uniaccs"
      using r by (simp add: get_Pfam_alignments_def)
    fix x assume x: "x \<in> set uniaccs"
    obtain uniacc profiles seq where xe: "x = (uniacc, profiles, seq)" by (cases x) auto
    have "map_of uniaccs uniacc = Some (profiles, seq)" using assms x xe by simp
    then have "map_of (get_Pfam_alignments makeSeqFile hmmScan hmmAlign uniaccs seq_file) uniacc
        = Some (map (realigned makeSeqFile hmmAlign uniacc seq)
                 (hmmScan (Some (makeSeqFile (uniacc, seq))) ''pfam-DBDs/all_DBDs.hmm'' True))"
      using r by (simp add: get_Pfam_alignments_def)
    then show "case x of (uniacc, profiles, seq) \<Rightarrow>
           map_of (get_Pfam_alignments makeSeqFile hmmScan hmmAlign uniaccs seq_file) uniacc
           = Some (map (\<lambda>(pfam_ac, start, end, evalue).
                          (pfam_ac,
                           hmmAlign (Some (makeSeqFile (uniacc, py_slice seq start end)))
                             (''pfam-DBDs/'' @ pfam_ac @ ''.hmm''),
                           start + 1, end, evalue))
                     (hmmScan (Some (makeSeqFile (uniacc, seq))) ''pfam-DBDs/all_DBDs.hmm''
                        True))"
      unfolding xe f by simp
  qed
qed

lemma example_pfams:
  "get_Pfam_alignments id example_hmmScan example_hmmAlign
     [(''P1'', ([''MA0001.1''], ''MKRGRVQLKRIENK'')), (''P2'', ([''MA0002.1''], ''MAAA''))] None
   = [(''P1'', [(''PF00319'', ''RGRVQLK'', 3, 9, ''1.2e-30'')]), (''P2'', [])]"
  by (simp add: get_Pfam_alignments_def setdefault_def example_hmmScan_def example_hmmAlign_def
      dict_append_def py_slice_def)

theorem get_Pfam_alignments_realigned_witness:
  "get_Pfam_alignments id example_hmmScan example_hmmAlign
     [(''P1'', ([''MA0001.1''], ''MKRGRVQLKRIENK'')), (''P2'', ([''MA0002.1''], ''MAAA''))] None
   = [(''P1'', [(''PF00319'', ''RGRVQLK'', 3, 9, ''1.2e-30'')]), (''P2'', [])]
   \<and> map fst [(''P1'', [(''PF00319'', ''RGRVQLK'', 3::int, 9::int, ''1.2e-30'')]), (''P2'', [])]
     = map fst [(''P1'', ([''MA0001.1''], ''MKRGRVQLKRIENK'')), (''P2'', ([''MA0002.1''], ''MAAA''))]"
proof -
  have d: "distinct (map fst
      [(''P1'', ([''MA0001.1''], ''MKRGRVQLKRIENK'')), (''P2'', ([''MA0002.1''], ''MAAA''))])"
    by simp
  from get_Pfam_alignments_realigned [OF d, of id example_hmmScan example_hmmAlign None,
      THEN conjunct1]
  have "map fst (get_Pfam_alignments id example_hmmScan example_hmmAlign
     [(''P1'', ([''MA0001.1''], ''MKRGRVQLKRIENK'')), (''P2'', ([''MA0002.1''], ''MAAA''))] None)
     = map fst [(''P1'', ([''MA0001.1''], ''MKRGRVQLKRIENK'')), (''P2'', ([''MA0002.1''], ''MAAA''))]" .
  then show ?thesis unfolding example_pfams by (intro conjI) (rule refl)
qed

section \<open>Groups of one DBD composition\<close>

lemma py_join_empty:
  "\<forall>x \<in> set xs. x \<noteq> [] \<Longrightarrow> py_join sep xs = [] \<longleftrightarrow> xs = []"
  by (induction sep xs rule: py_join.induct) auto

lemma group_members_place:
  "distinct (map fst g) \<Longrightarrow>
   group_members (dict_append k m (setdefault k [] g)) k'
     = group_members g k' @ (if k' = k then [m] else [])"
  by (auto simp: group_members_def map_of_dict_append map_of_setdefault_at split: option.splits)

lemma keys_place:
  "map fst (dict_append k x (setdefault k [] g)) = map fst (setdefault k [] g)"
  by (rule keys_dict_append)

lemma nonempty_place:
  assumes "\<forall>e \<in> set g. snd e \<noteq> [] \<and> fst e \<noteq> []" and "k \<noteq> []"
  shows "\<forall>e \<in> set (dict_append k m (setdefault k [] g)). snd e \<noteq> [] \<and> fst e \<noteq> []"
  using assms
  by (auto simp: dict_append_def setdefault_def split: option.splits if_splits)

lemma DBD_members_loop_inv:
  assumes "DBD_members_loop uniaccs pfams g = Inr out"
    and "distinct (map fst g)"
    and "\<forall>e \<in> set g. snd e \<noteq> [] \<and> fst e \<noteq> []"
  shows "distinct (map fst out)
     \<and> (\<forall>e \<in> set out. snd e \<noteq> [] \<and> fst e \<noteq> [])
     \<and> (\<forall>k. group_members out k
           = group_members g k @ map snd (filter (\<lambda>p. fst p = k) (placed_taxon pfams uniaccs)))
     \<and> (\<forall>(uniacc, values) \<in> set pfams.
           py_join ''+'' (map fst values) \<noteq> [] \<longrightarrow> map_of uniaccs uniacc \<noteq> None)"
  using assms
proof (induction pfams arbitrary: g)
  case Nil
  then show ?case by (simp add: placed_taxon_def)
next
  case (Cons e rest)
  obtain uniacc vs where e: "e = (uniacc, vs)" by (cases e)
  define k where "k = py_join ''+'' (map fst vs)"
  show ?case
  proof (cases "k = []")
    case True
    then have run: "DBD_members_loop uniaccs rest g = Inr out"
      using Cons.prems(1) e by (simp add: k_def)
    have pt: "placed_taxon (e # rest) uniaccs = placed_taxon rest uniaccs"
      using True e by (simp add: placed_taxon_def k_def)
    from Cons.IH [OF run Cons.prems(2,3)] show ?thesis
      unfolding pt using True e by (simp add: k_def)
  next
    case False
    from Cons.prems(1) e False obtain u where u: "map_of uniaccs uniacc = Some u"
      by (cases "map_of uniaccs uniacc") (auto simp: Let_def k_def)
    define m where "m = (fst u, map (\<lambda>v. fst (snd v)) vs, uniacc)"
    define g1 where "g1 = dict_append k m (setdefault k [] g)"
    have run: "DBD_members_loop uniaccs rest g1 = Inr out"
      using Cons.prems(1) e False u by (simp add: Let_def k_def g1_def m_def)
    have d1: "distinct (map fst g1)"
      unfolding g1_def keys_place using Cons.prems(2) by (rule distinct_setdefault)
    have n1: "\<forall>e \<in> set g1. snd e \<noteq> [] \<and> fst e \<noteq> []"
      unfolding g1_def using Cons.prems(3) False by (rule nonempty_place)
    have gm: "group_members g1 k' = group_members g k' @ (if k' = k then [m] else [])" for k'
      unfolding g1_def using Cons.prems(2) by (rule group_members_place)
    have pt: "placed_taxon (e # rest) uniaccs = (k, m) # placed_taxon rest uniaccs"
      using False e u by (simp add: placed_taxon_def k_def m_def)
    from Cons.IH [OF run d1 n1] have ih:
      "distinct (map fst out)" "\<forall>e \<in> set out. snd e \<noteq> [] \<and> fst e \<noteq> []"
      "\<And>k'. group_members out k'
           = group_members g1 k' @ map snd (filter (\<lambda>p. fst p = k') (placed_taxon rest uniaccs))"
      "\<forall>(uniacc, values) \<in> set rest.
           py_join ''+'' (map fst values) \<noteq> [] \<longrightarrow> map_of uniaccs uniacc \<noteq> None"
      by simp_all
    show ?thesis
    proof (intro conjI allI)
      show "distinct (map fst out)" by (rule ih(1))
      show "\<forall>e \<in> set out. snd e \<noteq> [] \<and> fst e \<noteq> []" by (rule ih(2))
      show "group_members out k' = group_members g k'
              @ map snd (filter (\<lambda>p. fst p = k') (placed_taxon (e # rest) uniaccs))" for k'
        unfolding ih(3) gm pt by simp
      show "\<forall>(uniacc, values) \<in> set (e # rest).
              py_join ''+'' (map fst values) \<noteq> [] \<longrightarrow> map_of uniaccs uniacc \<noteq> None"
        using ih(4) e u by simp
    qed
  qed
qed

lemma DBD_taxons_loop_inv:
  assumes "DBD_taxons_loop files g = Inr out"
    and "distinct (map fst g)"
    and "\<forall>e \<in> set g. snd e \<noteq> [] \<and> fst e \<noteq> []"
  shows "distinct (map fst out)
     \<and> (\<forall>e \<in> set out. snd e \<noteq> [] \<and> fst e \<noteq> [])
     \<and> (\<forall>k. group_members out k
           = group_members g k @ map snd (filter (\<lambda>p. fst p = k) (placed files)))
     \<and> (\<forall>(pfams, uniaccs) \<in> set files. \<forall>(uniacc, values) \<in> set pfams.
           py_join ''+'' (map fst values) \<noteq> [] \<longrightarrow> map_of uniaccs uniacc \<noteq> None)"
  using assms
proof (induction files arbitrary: g)
  case Nil
  then show ?case by (simp add: placed_def)
next
  case (Cons f rest)
  obtain pfams uniaccs where f: "f = (pfams, uniaccs)" by (cases f)
  from Cons.prems(1) f obtain g1 where one: "DBD_members_loop uniaccs pfams g = Inr g1"
    and run: "DBD_taxons_loop rest g1 = Inr out"
    by (auto split: sum.splits)
  from DBD_members_loop_inv [OF one Cons.prems(2,3)] have s:
    "distinct (map fst g1)" "\<forall>e \<in> set g1. snd e \<noteq> [] \<and> fst e \<noteq> []"
    "\<And>k. group_members g1 k
           = group_members g k @ map snd (filter (\<lambda>p. fst p = k) (placed_taxon pfams uniaccs))"
    "\<forall>(uniacc, values) \<in> set pfams.
        py_join ''+'' (map fst values) \<noteq> [] \<longrightarrow> map_of uniaccs uniacc \<noteq> None"
    by simp_all
  from Cons.IH [OF run s(1,2)] have ih:
    "distinct (map fst out)" "\<forall>e \<in> set out. snd e \<noteq> [] \<and> fst e \<noteq> []"
    "\<And>k. group_members out k
           = group_members g1 k @ map snd (filter (\<lambda>p. fst p = k) (placed rest))"
    "\<forall>(pfams, uniaccs) \<in> set rest. \<forall>(uniacc, values) \<in> set pfams.
           py_join ''+'' (map fst values) \<noteq> [] \<longrightarrow> map_of uniaccs uniacc \<noteq> None"
    by simp_all
  have pl: "placed (f # rest) = placed_taxon pfams uniaccs @ placed rest"
    by (simp add: placed_def f)
  show ?case
  proof (intro conjI allI)
    show "distinct (map fst out)" by (rule ih(1))
    show "\<forall>e \<in> set out. snd e \<noteq> [] \<and> fst e \<noteq> []" by (rule ih(2))
    show "group_members out k = group_members g k
            @ map snd (filter (\<lambda>p. fst p = k) (placed (f # rest)))" for k
      unfolding ih(3) s(3) pl by simp
    show "\<forall>(pfams, uniaccs) \<in> set (f # rest). \<forall>(uniacc, values) \<in> set pfams.
           py_join ''+'' (map fst values) \<noteq> [] \<longrightarrow> map_of uniaccs uniacc \<noteq> None"
      using ih(4) s(4) f by simp
  qed
qed

lemma DBD_members_loop_returns:
  assumes "\<forall>(uniacc, values) \<in> set pfams.
             py_join ''+'' (map fst values) \<noteq> [] \<longrightarrow> map_of uniaccs uniacc \<noteq> None"
  shows "\<exists>out. DBD_members_loop uniaccs pfams g = Inr out"
  using assms
proof (induction pfams arbitrary: g)
  case Nil
  show ?case by simp
next
  case (Cons e rest)
  obtain uniacc vs where e: "e = (uniacc, vs)" by (cases e)
  have later: "\<forall>(uniacc, values) \<in> set rest.
             py_join ''+'' (map fst values) \<noteq> [] \<longrightarrow> map_of uniaccs uniacc \<noteq> None"
    using Cons.prems by simp
  show ?case
  proof (cases "py_join ''+'' (map fst vs) = []")
    case True
    with Cons.IH [OF later, of g] show ?thesis using e by simp
  next
    case False
    with Cons.prems e obtain u where u: "map_of uniaccs uniacc = Some u" by auto
    from Cons.IH [OF later,
        of "dict_append (py_join ''+'' (map fst vs)) (fst u, map (\<lambda>v. fst (snd v)) vs, uniacc)
              (setdefault (py_join ''+'' (map fst vs)) [] g)"]
    show ?thesis using e False u by (simp add: Let_def)
  qed
qed

lemma DBD_taxons_loop_returns:
  assumes "\<forall>(pfams, uniaccs) \<in> set files. \<forall>(uniacc, values) \<in> set pfams.
             py_join ''+'' (map fst values) \<noteq> [] \<longrightarrow> map_of uniaccs uniacc \<noteq> None"
  shows "\<exists>out. DBD_taxons_loop files g = Inr out"
  using assms
proof (induction files arbitrary: g)
  case Nil
  show ?case by simp
next
  case (Cons f rest)
  obtain pfams uniaccs where f: "f = (pfams, uniaccs)" by (cases f)
  have "\<forall>(uniacc, values) \<in> set pfams.
             py_join ''+'' (map fst values) \<noteq> [] \<longrightarrow> map_of uniaccs uniacc \<noteq> None"
    using Cons.prems f by simp
  from DBD_members_loop_returns [OF this, of g] obtain g1 where
    g1: "DBD_members_loop uniaccs pfams g = Inr g1" ..
  have "\<forall>(pfams, uniaccs) \<in> set rest. \<forall>(uniacc, values) \<in> set pfams.
             py_join ''+'' (map fst values) \<noteq> [] \<longrightarrow> map_of uniaccs uniacc \<noteq> None"
    using Cons.prems by simp
  from Cons.IH [OF this, of g1] show ?case using f g1 by simp
qed

lemma set_placed_taxon:
  "(k, m) \<in> set (placed_taxon pfams uniaccs) \<longleftrightarrow>
     (\<exists>(uniacc, values) \<in> set pfams. \<exists>u.
        py_join ''+'' (map fst values) \<noteq> [] \<and> map_of uniaccs uniacc = Some u
        \<and> k = py_join ''+'' (map fst values)
        \<and> m = (fst u, map (\<lambda>v. fst (snd v)) values, uniacc))"
proof (induction pfams)
  case Nil
  then show ?case by (simp add: placed_taxon_def)
next
  case (Cons e pfams)
  obtain uniacc vs where e: "e = (uniacc, vs)" by (cases e)
  have pt: "placed_taxon (e # pfams) uniaccs
      = (if py_join ''+'' (map fst vs) = [] then []
         else (case map_of uniaccs uniacc of
                 None \<Rightarrow> []
               | Some u \<Rightarrow> [(py_join ''+'' (map fst vs),
                             (fst u, map (\<lambda>v. fst (snd v)) vs, uniacc))]))
        @ placed_taxon pfams uniaccs"
    by (simp add: placed_taxon_def e)
  show ?case
    unfolding pt using Cons.IH
    by (cases "py_join ''+'' (map fst vs) = []"; cases "map_of uniaccs uniacc") (auto simp: e)
qed

lemma set_placed:
  "(k, m) \<in> set (placed files) \<longleftrightarrow>
     (\<exists>(pfams, uniaccs) \<in> set files. \<exists>(uniacc, values) \<in> set pfams. \<exists>u.
        py_join ''+'' (map fst values) \<noteq> [] \<and> map_of uniaccs uniacc = Some u
        \<and> k = py_join ''+'' (map fst values)
        \<and> m = (fst u, map (\<lambda>v. fst (snd v)) values, uniacc))"
proof -
  have "(k, m) \<in> set (placed files) \<longleftrightarrow>
      (\<exists>(pfams, uniaccs) \<in> set files. (k, m) \<in> set (placed_taxon pfams uniaccs))"
    by (auto simp: placed_def)
  then show ?thesis by (simp add: set_placed_taxon)
qed

lemma group_by_DBD_composition_placed:
  assumes "group_by_DBD_composition files = Inr groups"
  shows "distinct (map fst groups)
     \<and> (\<forall>e \<in> set groups. fst e \<noteq> [] \<and> snd e \<noteq> [])
     \<and> (\<forall>k. group_members groups k = map snd (filter (\<lambda>p. fst p = k) (placed files)))
     \<and> (\<forall>k m. m \<in> set (group_members groups k) \<longleftrightarrow>
           (\<exists>(pfams, uniaccs) \<in> set files. \<exists>(uniacc, values) \<in> set pfams. \<exists>u.
              py_join ''+'' (map fst values) \<noteq> [] \<and> map_of uniaccs uniacc = Some u
              \<and> k = py_join ''+'' (map fst values)
              \<and> m = (fst u, map (\<lambda>v. fst (snd v)) values, uniacc)))"
proof -
  have e: "\<forall>e \<in> set ([] :: groups). snd e \<noteq> [] \<and> fst e \<noteq> []" by simp
  from DBD_taxons_loop_inv [OF assms [unfolded group_by_DBD_composition_def] _ e]
  have d: "distinct (map fst groups)"
    and n: "\<forall>e \<in> set groups. snd e \<noteq> [] \<and> fst e \<noteq> []"
    and g: "\<And>k. group_members groups k = map snd (filter (\<lambda>p. fst p = k) (placed files))"
    by (simp_all add: group_members_def)
  have m: "m \<in> set (group_members groups k) \<longleftrightarrow> (k, m) \<in> set (placed files)" for k m
    unfolding g by force
  show ?thesis
  proof (intro conjI allI)
    show "distinct (map fst groups)" by (rule d)
    show "\<forall>e \<in> set groups. fst e \<noteq> [] \<and> snd e \<noteq> []" using n by simp
    show "group_members groups k = map snd (filter (\<lambda>p. fst p = k) (placed files))" for k
      by (rule g)
    show "m \<in> set (group_members groups k) \<longleftrightarrow>
           (\<exists>(pfams, uniaccs) \<in> set files. \<exists>(uniacc, values) \<in> set pfams. \<exists>u.
              py_join ''+'' (map fst values) \<noteq> [] \<and> map_of uniaccs uniacc = Some u
              \<and> k = py_join ''+'' (map fst values)
              \<and> m = (fst u, map (\<lambda>v. fst (snd v)) values, uniacc))" for k m
      unfolding m by (rule set_placed)
  qed
qed

text \<open>
  C5, as the code has it. \<^verbatim>\<open>_group_by_DBD_composition\<close> returns when the UniProt file of
  every taxon has every accession whose joined Pfam accessions are not the empty
  string. When it returns, the keys of the groups are distinct, no key and no group is
  empty, and the group of a key holds, in the order of the taxa and of the accessions,
  exactly one member (profiles, alignments, accession) for every accession of every
  taxon whose Pfam accessions joined by \<^verbatim>\<open>+\<close> are the key and are not the empty string.
  So such an accession is placed once, in the group of its joined accessions and in no
  other, and an accession whose joined accessions are the empty string is placed in no
  group. The joined accessions are the empty string for an empty domain list, and only
  for it when no recorded Pfam accession is the empty string.
\<close>

theorem group_by_DBD_composition_groups:
  "((\<forall>(pfams, uniaccs) \<in> set files. \<forall>(uniacc, values) \<in> set pfams.
        py_join ''+'' (map fst values) \<noteq> [] \<longrightarrow> map_of uniaccs uniacc \<noteq> None)
     \<longrightarrow> (\<exists>groups. group_by_DBD_composition files = Inr groups))
   \<and> (\<forall>groups. group_by_DBD_composition files = Inr groups \<longrightarrow>
        distinct (map fst groups)
      \<and> (\<forall>e \<in> set groups. fst e \<noteq> [] \<and> snd e \<noteq> [])
      \<and> (\<forall>k. group_members groups k = map snd (filter (\<lambda>p. fst p = k) (placed files)))
      \<and> (\<forall>k m. m \<in> set (group_members groups k) \<longleftrightarrow>
           (\<exists>(pfams, uniaccs) \<in> set files. \<exists>(uniacc, values) \<in> set pfams. \<exists>u.
              py_join ''+'' (map fst values) \<noteq> [] \<and> map_of uniaccs uniacc = Some u
              \<and> k = py_join ''+'' (map fst values)
              \<and> m = (fst u, map (\<lambda>v. fst (snd v)) values, uniacc))))
   \<and> (\<forall>(pfams, uniaccs) \<in> set files. \<forall>(uniacc, values) \<in> set pfams.
        (values = [] \<longrightarrow> py_join ''+'' (map fst values) = [])
      \<and> ((\<forall>v \<in> set values. fst v \<noteq> []) \<longrightarrow> py_join ''+'' (map fst values) = [] \<longrightarrow> values = []))"
proof (intro conjI)
  show "(\<forall>(pfams, uniaccs) \<in> set files. \<forall>(uniacc, values) \<in> set pfams.
        py_join ''+'' (map fst values) \<noteq> [] \<longrightarrow> map_of uniaccs uniacc \<noteq> None)
     \<longrightarrow> (\<exists>groups. group_by_DBD_composition files = Inr groups)"
    unfolding group_by_DBD_composition_def by (rule impI) (rule DBD_taxons_loop_returns)
  show "\<forall>groups. group_by_DBD_composition files = Inr groups \<longrightarrow>
        distinct (map fst groups)
      \<and> (\<forall>e \<in> set groups. fst e \<noteq> [] \<and> snd e \<noteq> [])
      \<and> (\<forall>k. group_members groups k = map snd (filter (\<lambda>p. fst p = k) (placed files)))
      \<and> (\<forall>k m. m \<in> set (group_members groups k) \<longleftrightarrow>
           (\<exists>(pfams, uniaccs) \<in> set files. \<exists>(uniacc, values) \<in> set pfams. \<exists>u.
              py_join ''+'' (map fst values) \<noteq> [] \<and> map_of uniaccs uniacc = Some u
              \<and> k = py_join ''+'' (map fst values)
              \<and> m = (fst u, map (\<lambda>v. fst (snd v)) values, uniacc)))"
    by (rule allI, rule impI) (rule group_by_DBD_composition_placed)
  show "\<forall>(pfams, uniaccs) \<in> set files. \<forall>(uniacc, values) \<in> set pfams.
        (values = [] \<longrightarrow> py_join ''+'' (map fst values) = [])
      \<and> ((\<forall>v \<in> set values. fst v \<noteq> []) \<longrightarrow> py_join ''+'' (map fst values) = [] \<longrightarrow> values = [])"
  proof (intro ballI, clarify, rule conjI)
    fix pfams uniaccs uniacc and vs :: "(string \<times> string \<times> 'a) list"
    show "vs = [] \<longrightarrow> py_join ''+'' (map fst vs) = []" by simp
    show "(\<forall>v \<in> set vs. fst v \<noteq> []) \<longrightarrow> py_join ''+'' (map fst vs) = [] \<longrightarrow> vs = []"
    proof (intro impI)
      assume "\<forall>v \<in> set vs. fst v \<noteq> []" and j: "py_join ''+'' (map fst vs) = []"
      then have "\<forall>x \<in> set (map fst vs). x \<noteq> []" by simp
      from py_join_empty [OF this, of "''+''"] j show "vs = []" by simp
    qed
  qed
qed

lemma example_groups:
  "group_by_DBD_composition
     [([(''P1'', [(''PF00319'', ''RGRVQLK'', ()), (''PF01486'', ''LEQQL'', ())]), (''P2'', [])],
       [(''P1'', ([''MA0001.1''], ''MKRGRVQLKRIENK'')), (''P2'', ([''MA0002.1''], ''MAAA''))])]
   = Inr [(''PF00319+PF01486'', [([''MA0001.1''], [''RGRVQLK'', ''LEQQL''], ''P1'')])]"
  by (simp add: group_by_DBD_composition_def setdefault_def dict_append_def)

text \<open>
  C5 as stated fails where a recorded Pfam accession is the empty string: the domain
  list of \<^verbatim>\<open>P1\<close> has one domain, its joined accessions are the empty string, and the
  accession is placed in no group.
\<close>

theorem group_by_DBD_composition_counterexample:
  "group_by_DBD_composition
     [([(''P1'', [('''', ''RGRVQLK'', ())])], [(''P1'', ([''MA0001.1''], ''MKRGRVQLKRIENK''))])]
   = Inr []
   \<and> map_of [(''P1'', [('''', ''RGRVQLK'', ())])] ''P1'' = Some [('''', ''RGRVQLK'', ())]
   \<and> length [('''', ''RGRVQLK'', ())] = 1"
  by (simp add: group_by_DBD_composition_def)

theorem group_by_DBD_composition_groups_witness:
  "(\<exists>groups. group_by_DBD_composition
     [([(''P1'', [(''PF00319'', ''RGRVQLK'', ()), (''PF01486'', ''LEQQL'', ())]), (''P2'', [])],
       [(''P1'', ([''MA0001.1''], ''MKRGRVQLKRIENK'')), (''P2'', ([''MA0002.1''], ''MAAA''))])]
      = Inr groups)
   \<and> group_by_DBD_composition
     [([(''P1'', [(''PF00319'', ''RGRVQLK'', ()), (''PF01486'', ''LEQQL'', ())]), (''P2'', [])],
       [(''P1'', ([''MA0001.1''], ''MKRGRVQLKRIENK'')), (''P2'', ([''MA0002.1''], ''MAAA''))])]
   = Inr [(''PF00319+PF01486'', [([''MA0001.1''], [''RGRVQLK'', ''LEQQL''], ''P1'')])]
   \<and> group_members [(''PF00319+PF01486'', [([''MA0001.1''], [''RGRVQLK'', ''LEQQL''], ''P1'')])]
       ''PF00319+PF01486''
     = map snd (filter (\<lambda>p. fst p = ''PF00319+PF01486'') (placed
     [([(''P1'', [(''PF00319'', ''RGRVQLK'', ()), (''PF01486'', ''LEQQL'', ())]), (''P2'', [])],
       [(''P1'', ([''MA0001.1''], ''MKRGRVQLKRIENK'')), (''P2'', ([''MA0002.1''], ''MAAA''))])]))"
proof -
  let ?files = "[([(''P1'', [(''PF00319'', ''RGRVQLK'', ()), (''PF01486'', ''LEQQL'', ())]),
                   (''P2'', [])],
       [(''P1'', ([''MA0001.1''], ''MKRGRVQLKRIENK'')), (''P2'', ([''MA0002.1''], ''MAAA''))])]"
  note all3 = group_by_DBD_composition_groups [of ?files]
  have h: "\<forall>(pfams, uniaccs) \<in> set ?files. \<forall>(uniacc, values) \<in> set pfams.
        py_join ''+'' (map fst values) \<noteq> [] \<longrightarrow> map_of uniaccs uniacc \<noteq> None"
    by simp
  from all3 [THEN conjunct1] h have ret: "\<exists>groups. group_by_DBD_composition ?files = Inr groups"
    by (rule mp)
  from all3 [THEN conjunct2, THEN conjunct1, THEN spec, THEN mp, OF example_groups]
  have "\<forall>k. group_members [(''PF00319+PF01486'', [([''MA0001.1''], [''RGRVQLK'', ''LEQQL''], ''P1'')])] k
          = map snd (filter (\<lambda>p. fst p = k) (placed ?files))"
    by (rule conjunct2 [THEN conjunct2, THEN conjunct1])
  then have g: "group_members
       [(''PF00319+PF01486'', [([''MA0001.1''], [''RGRVQLK'', ''LEQQL''], ''P1'')])]
       ''PF00319+PF01486''
          = map snd (filter (\<lambda>p. fst p = ''PF00319+PF01486'') (placed ?files))" ..
  show ?thesis by (intro conjI) (rule ret, rule example_groups, rule g)
qed

section \<open>What the regression trainer writes\<close>

lemma cv_pass_exits: "\<exists>e. cv_pass fit predict zeros ones myXs Ys cv = Inl e"
  by (auto simp: cv_pass_def split: sum.splits)

lemma similarity_loop_exits:
  "similarities \<noteq> [] \<Longrightarrow>
   \<exists>e. similarity_loop fit predict zeros ones Xs Ys cvs regression similarities entries = Inl e"
  by (cases similarities) (auto split: option.splits sum.splits)

lemma regression_loop_exits:
  assumes "regressions \<noteq> []"
  shows "\<exists>e. regression_loop fit predict zeros ones Xs Ys cvs regressions entries = Inl e"
proof -
  from assms obtain regression rest where r: "regressions = regression # rest"
    by (cases regressions) auto
  have "\<exists>e. similarity_loop fit predict zeros ones Xs Ys cvs regression
      [''identity'', ''blosum62''] entries = Inl e"
    by (rule similarity_loop_exits) simp
  then obtain e where "similarity_loop fit predict zeros ones Xs Ys cvs regression
      [''identity'', ''blosum62''] entries = Inl e" ..
  then show ?thesis unfolding r by simp
qed

lemma regress_domains_exits:
  "\<exists>e. regress_domains fit predict zeros ones vals
         = (Inl e :: py_error + (string \<times> string, 'd) dict)"
proof (cases "map_of (values_Xs vals) ''identity''")
  case None
  then show ?thesis by (simp add: regress_domains_def)
next
  case i: (Some Xi)
  show ?thesis
  proof (cases "map_of (values_Xs vals) ''blosum62''")
    case None
    then show ?thesis by (simp add: regress_domains_def i)
  next
    case (Some Xb)
    have "\<exists>e. regression_loop fit predict zeros ones
        [(''identity'', Xi), (''blosum62'', Xb)] (values_Ys vals)
        (myCViterator (values_tfPairs vals)) [''linear'', ''logistic'']
        ([] :: (string \<times> string, 'd) dict) = Inl e"
      by (rule regression_loop_exits) simp
    then obtain e where "regression_loop fit predict zeros ones
        [(''identity'', Xi), (''blosum62'', Xb)] (values_Ys vals)
        (myCViterator (values_tfPairs vals)) [''linear'', ''logistic'']
        ([] :: (string \<times> string, 'd) dict) = Inl e" ..
    then show ?thesis unfolding regress_domains_def i Some by simp
  qed
qed

lemma domains_loop_Sox:
  fixes models :: "(string, (string \<times> string, 'd) dict) dict"
  shows "domains_loop fit predict zeros ones pairwise_pickle models = Inr out \<Longrightarrow>
   ''Sox'' \<notin> fst ` set pairwise_pickle \<and> out = models"
proof (induction pairwise_pickle arbitrary: models)
  case Nil
  then show ?case by simp
next
  case (Cons entry rest)
  obtain domains vals where entry: "entry = (domains, vals)" by (cases entry)
  show ?case
  proof (cases "domains = ''Sox''")
    case True
    have "\<exists>e. regress_domains fit predict zeros ones vals
        = (Inl e :: py_error + (string \<times> string, 'd) dict)"
      by (rule regress_domains_exits)
    then obtain e where "regress_domains fit predict zeros ones vals
        = (Inl e :: py_error + (string \<times> string, 'd) dict)" ..
    with Cons.prems True show ?thesis unfolding entry by simp
  next
    case False
    with Cons.prems have "domains_loop fit predict zeros ones rest models = Inr out"
      unfolding entry by simp
    from Cons.IH [OF this] False show ?thesis unfolding entry by simp
  qed
qed

text \<open>
  C3, as the code has it. Whatever the pickle, the regression and the file system:
  when \<^verbatim>\<open>train_models\<close> writes \<^verbatim>\<open>models.pickle\<close>, the pickle has no composition \<^verbatim>\<open>Sox\<close>
  and nothing but the two describing entries is written, no composition and no
  diagnostic; and when the pickle has the composition \<^verbatim>\<open>Sox\<close> and \<^verbatim>\<open>models.pickle\<close> does
  not exist, the function ends with an exception or with \<^verbatim>\<open>exit(0)\<close> and writes nothing.
\<close>

theorem train_models_writes_no_diagnostics:
  "(\<forall>models :: (string, (string \<times> string, 'd) dict) dict.
      train_models fit predict zeros ones models_file_exists pairwise_pickle
        = Inr (Some models) \<longrightarrow>
      models = [] \<and> ''Sox'' \<notin> fst ` set pairwise_pickle)
   \<and> (''Sox'' \<in> fst ` set pairwise_pickle \<and> \<not> models_file_exists \<longrightarrow>
        (\<exists>e. train_models fit predict zeros ones models_file_exists pairwise_pickle
               = (Inl e :: py_error + (string, (string \<times> string, 'd) dict) dict option)))"
proof (rule conjI)
  show "\<forall>models :: (string, (string \<times> string, 'd) dict) dict.
      train_models fit predict zeros ones models_file_exists pairwise_pickle
        = Inr (Some models) \<longrightarrow>
      models = [] \<and> ''Sox'' \<notin> fst ` set pairwise_pickle"
  proof (rule allI, rule impI)
    fix models :: "(string, (string \<times> string, 'd) dict) dict"
    assume "train_models fit predict zeros ones models_file_exists pairwise_pickle
        = Inr (Some models)"
    then have "domains_loop fit predict zeros ones pairwise_pickle [] = Inr models"
      by (auto simp: train_models_def split: if_splits sum.splits)
    from domains_loop_Sox [OF this]
    show "models = [] \<and> ''Sox'' \<notin> fst ` set pairwise_pickle" by simp
  qed
next
  show "''Sox'' \<in> fst ` set pairwise_pickle \<and> \<not> models_file_exists \<longrightarrow>
        (\<exists>e. train_models fit predict zeros ones models_file_exists pairwise_pickle
               = (Inl e :: py_error + (string, (string \<times> string, 'd) dict) dict option))"
  proof (rule impI)
    assume a: "''Sox'' \<in> fst ` set pairwise_pickle \<and> \<not> models_file_exists"
    show "\<exists>e. train_models fit predict zeros ones models_file_exists pairwise_pickle
               = (Inl e :: py_error + (string, (string \<times> string, 'd) dict) dict option)"
    proof (cases "domains_loop fit predict zeros ones pairwise_pickle
        ([] :: (string, (string \<times> string, 'd) dict) dict)")
      case (Inl e)
      then show ?thesis using a by (simp add: train_models_def)
    next
      case (Inr out)
      from domains_loop_Sox [OF this] a show ?thesis by simp
    qed
  qed
qed

lemma example_cv:
  "myCViterator [[''SOX2'', ''SOX9''], [''SOX9'', ''SRY''], [''SOX2'', ''SRY'']]
     = [([1], [0, 2]), ([2], [0, 1]), ([0], [1, 2])]"
  by (simp add: myCViterator_def tf_indices_def tf_names_def setdefault_def leaveOneTFOut_def
      range_py_def upto.simps)

lemma example_train:
  "train_models example_fit example_predict ''0'' ''1'' False example_pairwise
     = (Inl (SystemExit 0) :: py_error + (string, (string \<times> string, unit) dict) dict option)"
  by (simp add: train_models_def example_pairwise_def regress_domains_def example_cv
      cv_pass_def itemgetter_def py_index_def example_fit_def example_predict_def)

theorem train_models_writes_no_diagnostics_witness:
  "train_models example_fit example_predict ''0'' ''1'' False example_pairwise
     = (Inl (SystemExit 0) :: py_error + (string, (string \<times> string, unit) dict) dict option)
   \<and> ''Sox'' \<in> fst ` set example_pairwise"
proof -
  have s: "''Sox'' \<in> fst ` set example_pairwise \<and> \<not> False"
    by (simp add: example_pairwise_def)
  from train_models_writes_no_diagnostics [where ?'d = unit, THEN conjunct2, THEN mp, OF s,
      of example_fit example_predict "''0''" "''1''"]
  have "\<exists>e. train_models example_fit example_predict ''0'' ''1'' False example_pairwise
     = (Inl e :: py_error + (string, (string \<times> string, unit) dict) dict option)" .
  with example_train s show ?thesis by simp
qed

end
